theory Spec2Isabelle
  imports Main "HOL-Library.Word"
begin

unbundle bit_operations_syntax

section \<open>Machine types and constants\<close>

type_synonym uint8_t = "8 word"
type_synonym uint16_t = "16 word"
type_synonym uint32_t = "32 word"

text \<open>at\_command.h and the constants at the head of at\_command.c.\<close>

definition AT_CMD_MAX_LEN :: nat where
  "AT_CMD_MAX_LEN = 128"

definition AT_RX_TIMEOUT_MS :: uint32_t where
  "AT_RX_TIMEOUT_MS = 500"

definition AT_MAX_GARBAGE :: uint16_t where
  "AT_MAX_GARBAGE = 20"

definition ASCII_SPACE :: uint8_t where
  "ASCII_SPACE = 0x20"

definition ASCII_TILDE :: uint8_t where
  "ASCII_TILDE = 0x7E"

definition ASCII_CR :: uint8_t where
  "ASCII_CR = 0x0D"

definition ASCII_LF :: uint8_t where
  "ASCII_LF = 0x0A"

section \<open>Line receiver (at\_command.c, interrupt side)\<close>

text \<open>
  The static variables of the line receiver.  \<open>seq_tasks_set\<close> is not a variable of the
  program: it counts the calls of \<open>UTIL_SEQ_SetTask\<close>, the only effect of the receiver
  outside its own variables, which happens exactly where \<open>at_cmd_ready\<close> is assigned 1.
\<close>

record at_rx =
  at_line_buf :: "uint8_t list"
  at_line_idx :: uint16_t
  at_cmd_ready :: uint8_t
  at_garbage_count :: uint16_t
  at_cmd_buf :: "uint8_t list"
  at_rx_tick :: uint32_t
  seq_tasks_set :: nat

definition AT_Command_Init :: "at_rx \<Rightarrow> at_rx" where
  "AT_Command_Init s =
     s\<lparr>at_line_idx := 0, at_cmd_ready := 0, at_garbage_count := 0, at_rx_tick := 0,
       at_line_buf := replicate AT_CMD_MAX_LEN 0,
       at_cmd_buf := replicate AT_CMD_MAX_LEN 0\<rparr>"

text \<open>The timeout check of \<open>AT_Command_ReceiveByte\<close> (lines 249-253).\<close>

definition rx_timeout_check :: "at_rx \<Rightarrow> at_rx" where
  "rx_timeout_check s =
     (if at_line_idx s > 0 \<and> at_rx_tick s > AT_RX_TIMEOUT_MS
      then s\<lparr>at_line_idx := 0, at_garbage_count := 0, at_rx_tick := 0\<rparr>
      else s)"

text \<open>The terminator branch (lines 256-267).\<close>

definition rx_terminator :: "at_rx \<Rightarrow> at_rx" where
  "rx_terminator s =
     (if at_line_idx s \<ge> 2
      then s\<lparr>at_line_buf := (at_line_buf s)[unat (at_line_idx s) := 0],
             at_cmd_ready := 1, at_garbage_count := 0, at_rx_tick := 0,
             seq_tasks_set := Suc (seq_tasks_set s)\<rparr>
      else s\<lparr>at_line_idx := 0\<rparr>)"

text \<open>The printable branch (lines 270-276).\<close>

definition rx_printable :: "uint8_t \<Rightarrow> at_rx \<Rightarrow> at_rx" where
  "rx_printable byte s =
     (if unat (at_line_idx s) < AT_CMD_MAX_LEN - 1
      then s\<lparr>at_line_buf := (at_line_buf s)[unat (at_line_idx s) := byte],
             at_line_idx := at_line_idx s + 1, at_rx_tick := 0, at_garbage_count := 0\<rparr>
      else s)"

text \<open>The garbage branch (lines 277-283).\<close>

definition rx_garbage :: "at_rx \<Rightarrow> at_rx" where
  "rx_garbage s =
     (let g = at_garbage_count s + 1 in
      if g > AT_MAX_GARBAGE
      then s\<lparr>at_line_idx := 0, at_garbage_count := 0\<rparr>
      else s\<lparr>at_garbage_count := g\<rparr>)"

definition AT_Command_ReceiveByte :: "uint8_t \<Rightarrow> at_rx \<Rightarrow> at_rx" where
  "AT_Command_ReceiveByte byte s0 =
     (let s1 = s0\<lparr>at_rx_tick := at_rx_tick s0 + 1\<rparr> in
      if at_cmd_ready s1 \<noteq> 0 then s1
      else
        let s2 = rx_timeout_check s1 in
        if byte = ASCII_CR \<or> byte = ASCII_LF then rx_terminator s2
        else if byte \<ge> ASCII_SPACE \<and> byte \<le> ASCII_TILDE then rx_printable byte s2
        else rx_garbage s2)"

text \<open>
  The critical section of \<open>AT_Command_ProcessReady\<close> (lines 296-300): \<open>memcpy\<close> of
  \<open>at_line_idx + 1\<close> bytes into the second buffer, then the reset of index and flag.
\<close>

definition drain_critical_section :: "at_rx \<Rightarrow> at_rx" where
  "drain_critical_section s =
     (let n = unat (at_line_idx s) + 1 in
      s\<lparr>at_cmd_buf := take n (at_line_buf s) @ drop n (at_cmd_buf s),
        at_line_idx := 0, at_cmd_ready := 0\<rparr>)"

text \<open>A C string held in a byte array: the bytes before the first NUL.\<close>

definition c_string :: "uint8_t list \<Rightarrow> uint8_t list" where
  "c_string buf = takeWhile (\<lambda>b. b \<noteq> 0) buf"

text \<open>The receiver's variables as the C start-up code leaves them (zero-initialised statics).\<close>

definition rx_reset :: at_rx where
  "rx_reset =
     \<lparr>at_line_buf = replicate AT_CMD_MAX_LEN 0, at_line_idx = 0, at_cmd_ready = 0,
      at_garbage_count = 0, at_cmd_buf = replicate AT_CMD_MAX_LEN 0, at_rx_tick = 0,
      seq_tasks_set = 0\<rparr>"

section \<open>Collaborators and the trace of effects\<close>

text \<open>
  The device manager, the GATT client, the connection layer and the HAL are not part of
  this development.  Their types and results are parameters: a device record with the
  fields the code reads, and one record \<open>ble_env\<close> giving what each collaborator returns
  during one call into the code.
\<close>

record BLE_Device_t =
  mac_addr :: "uint8_t list"
  rssi :: int
  conn_handle :: uint16_t
  is_connected :: bool
  name :: string

record ble_env =
  HAL_GetTick :: uint32_t
  BLE_DeviceManager_GetDevice :: "nat \<Rightarrow> BLE_Device_t option"
  BLE_DeviceManager_GetCount :: uint8_t
  BLE_DeviceManager_FindDevice :: "uint8_t list \<Rightarrow> int"
  BLE_GATT_WriteCharacteristic :: "uint16_t \<Rightarrow> uint16_t \<Rightarrow> uint8_t list \<Rightarrow> int"
  BLE_GATT_ReadCharacteristic :: "uint16_t \<Rightarrow> uint16_t \<Rightarrow> int"
  BLE_Connection_CreateConnection :: "uint8_t list \<Rightarrow> int"
  BLE_Connection_StopScan :: int

text \<open>
  Requests issued to the collaborators, in order.  A handler whose body is not embedded
  here is recorded by \<open>Handler\<close> with its name and the arguments the dispatcher passes.
\<close>

datatype handler_arg = U8 uint8_t | U16 uint16_t | U32 uint32_t | Str string

datatype ext_call =
    GATT_Write uint16_t uint16_t "uint8_t list"
  | GATT_Read uint16_t uint16_t
  | Create_Connection "uint8_t list"
  | Stop_Scan
  | DeviceManager_Clear
  | Handler string "handler_arg list"

section \<open>Mode controller (module\_mode.c)\<close>

datatype Operation_Mode_t = MODE_COMMAND | MODE_DATA

definition ESCAPE_SEQ_CHAR :: uint8_t where
  "ESCAPE_SEQ_CHAR = 0x2B"

definition ESCAPE_SEQ_LENGTH :: uint8_t where
  "ESCAPE_SEQ_LENGTH = 3"

definition ESCAPE_GUARD_TIME_MS :: uint32_t where
  "ESCAPE_GUARD_TIME_MS = 1000"

definition DATA_TX_BUFFER_SIZE :: nat where
  "DATA_TX_BUFFER_SIZE = 512"

text \<open>
  The static variables of module\_mode.c, and three traces that are not variables of the
  program: \<open>uart_tx\<close> holds what each call of \<open>AT_Response_Send\<close> transmits,
  \<open>ext_calls\<close> the collaborator requests, and \<open>tx_store_idx\<close> the index of every
  store \<open>data_tx_buffer[data_tx_len++] = b\<close> the code executes, in order, so that a
  store outside the array is visible.
\<close>

record mode_state =
  current_mode :: Operation_Mode_t
  target_dev_idx :: uint8_t
  target_char_handle :: uint16_t
  data_tx_buffer :: "uint8_t list"
  data_tx_len :: uint16_t
  escape_count :: uint8_t
  last_char_time :: uint32_t
  escape_start_time :: uint32_t
  escape_detected :: uint8_t
  uart_tx :: "string list"
  ext_calls :: "ext_call list"
  tx_store_idx :: "nat list"

definition CRLF :: string where
  "CRLF = [CHR 0x0D, CHR 0x0A]"

text \<open>
  \<open>AT_Response_Send\<close> on the already formatted text: \<open>vsnprintf\<close> keeps at most 127
  characters and a NUL in the 128-byte buffer and returns the full length, which is
  clamped to 128 before the transmit.
\<close>

definition AT_Response_Send :: "string \<Rightarrow> mode_state \<Rightarrow> mode_state" where
  "AT_Response_Send txt s =
     s\<lparr>uart_tx := uart_tx s @
          [if length txt < AT_CMD_MAX_LEN then txt
           else take (AT_CMD_MAX_LEN - 1) txt @ [CHR 0x00]]\<rparr>"

definition Module_Mode_Init :: "mode_state \<Rightarrow> mode_state" where
  "Module_Mode_Init s =
     s\<lparr>current_mode := MODE_COMMAND, target_dev_idx := 0xFF, target_char_handle := 0,
       data_tx_len := 0, escape_count := 0, escape_detected := 0\<rparr>"

text \<open>
  \<open>Module_Mode_EnterCommand\<close> flushes, and \<open>Module_Mode_FlushTxBuffer\<close> enters command
  mode when the target is gone: the two call each other.  The result is the C return
  value and the state.
\<close>

function Module_Mode_EnterCommand :: "ble_env \<Rightarrow> mode_state \<Rightarrow> int \<times> mode_state"
  and Module_Mode_FlushTxBuffer :: "ble_env \<Rightarrow> mode_state \<Rightarrow> int \<times> mode_state"
where
  "Module_Mode_EnterCommand env s =
     (if current_mode s = MODE_COMMAND then (0, s)
      else
        let s1 = snd (Module_Mode_FlushTxBuffer env s);
            s2 = s1\<lparr>current_mode := MODE_COMMAND, target_dev_idx := 0xFF,
                    target_char_handle := 0, escape_count := 0, escape_detected := 0\<rparr>
        in (0, AT_Response_Send (''+CMDMODE'' @ CRLF) s2))"
| "Module_Mode_FlushTxBuffer env s =
     (if data_tx_len s = 0 then (0, s)
      else if current_mode s \<noteq> MODE_DATA then (0, s\<lparr>data_tx_len := 0\<rparr>)
      else
        (case BLE_DeviceManager_GetDevice env (unat (target_dev_idx s)) of
           None \<Rightarrow> (- 1, snd (Module_Mode_EnterCommand env (s\<lparr>data_tx_len := 0\<rparr>)))
         | Some dev \<Rightarrow>
             if \<not> is_connected dev
             then (- 1, snd (Module_Mode_EnterCommand env (s\<lparr>data_tx_len := 0\<rparr>)))
             else
               let payload = take (unat (data_tx_len s)) (data_tx_buffer s);
                   ret = BLE_GATT_WriteCharacteristic env (conn_handle dev)
                           (target_char_handle s) payload;
                   s1 = s\<lparr>ext_calls := ext_calls s @
                            [GATT_Write (conn_handle dev) (target_char_handle s) payload]\<rparr>
               in if ret = 0 then (0, s1\<lparr>data_tx_len := 0\<rparr>)
                  else (- 1, s1\<lparr>data_tx_len := 0\<rparr>)))"
  by pat_completeness auto
termination
  by (relation "measure (\<lambda>x. case x of
          Inl (env, s) \<Rightarrow> (if data_tx_len s = 0 then 1 else 3)
        | Inr (env, s) \<Rightarrow> (if data_tx_len s = 0 then 0 else 2))") auto

declare Module_Mode_EnterCommand.simps [simp del]
declare Module_Mode_FlushTxBuffer.simps [simp del]

definition Module_Mode_EnterData ::
  "ble_env \<Rightarrow> uint8_t \<Rightarrow> uint16_t \<Rightarrow> mode_state \<Rightarrow> int \<times> mode_state" where
  "Module_Mode_EnterData env dev_idx char_handle s =
     (case BLE_DeviceManager_GetDevice env (unat dev_idx) of
        None \<Rightarrow> (- 1, s)
      | Some dev \<Rightarrow>
          if \<not> is_connected dev then (- 1, s)
          else (0, AT_Response_Send (''+DATAMODE'' @ CRLF)
                     (s\<lparr>current_mode := MODE_DATA, target_dev_idx := dev_idx,
                        target_char_handle := char_handle, data_tx_len := 0,
                        escape_count := 0, escape_detected := 0,
                        last_char_time := HAL_GetTick env\<rparr>)))"

text \<open>\<open>data_tx_buffer[data_tx_len++] = b\<close>.\<close>

definition tx_append :: "uint8_t \<Rightarrow> mode_state \<Rightarrow> mode_state" where
  "tx_append b s =
     s\<lparr>data_tx_buffer := (data_tx_buffer s)[unat (data_tx_len s) := b],
       data_tx_len := data_tx_len s + 1,
       tx_store_idx := tx_store_idx s @ [unat (data_tx_len s)]\<rparr>"

text \<open>
  The loop of lines 144-146, \<open>n\<close> iterations left: it stops early when the buffer is full.
\<close>

fun add_buffered_plus :: "nat \<Rightarrow> mode_state \<Rightarrow> mode_state" where
  "add_buffered_plus 0 s = s"
| "add_buffered_plus (Suc n) s =
     (if unat (data_tx_len s) < DATA_TX_BUFFER_SIZE
      then add_buffered_plus n (tx_append ESCAPE_SEQ_CHAR s)
      else s)"

text \<open>
  Lines 121-149, the escape bookkeeping.  The first component is True where the C
  function returns at line 137.
\<close>

definition escape_bookkeeping ::
  "uint8_t \<Rightarrow> uint32_t \<Rightarrow> uint32_t \<Rightarrow> mode_state \<Rightarrow> bool \<times> mode_state" where
  "escape_bookkeeping byte current_time time_since_last s =
     (if byte = ESCAPE_SEQ_CHAR then
        (if escape_count s = 0 then
           (if time_since_last \<ge> ESCAPE_GUARD_TIME_MS
            then (False, s\<lparr>escape_start_time := current_time, escape_count := 1\<rparr>)
            else (False, s))
         else if escape_count s < ESCAPE_SEQ_LENGTH then
           (let s1 = s\<lparr>escape_count := escape_count s + 1\<rparr> in
            if escape_count s1 = ESCAPE_SEQ_LENGTH
            then (True, s1\<lparr>escape_detected := 1, last_char_time := current_time\<rparr>)
            else (False, s1))
         else (False, s))
      else
        (let s1 = (if escape_count s > 0 \<and> escape_count s < ESCAPE_SEQ_LENGTH
                   then add_buffered_plus (unat (escape_count s)) s else s)
         in (False, s1\<lparr>escape_count := 0\<rparr>)))"

text \<open>Lines 151-158: store the byte, flushing first when the buffer is full.\<close>

definition store_byte :: "ble_env \<Rightarrow> uint8_t \<Rightarrow> mode_state \<Rightarrow> mode_state" where
  "store_byte env byte s =
     (if unat (data_tx_len s) < DATA_TX_BUFFER_SIZE then tx_append byte s
      else tx_append byte (snd (Module_Mode_FlushTxBuffer env s)))"

text \<open>Lines 151-165: the store, the time stamp, then the auto-flush.\<close>

definition store_and_autoflush ::
  "ble_env \<Rightarrow> uint8_t \<Rightarrow> uint32_t \<Rightarrow> uint32_t \<Rightarrow> mode_state \<Rightarrow> mode_state" where
  "store_and_autoflush env byte current_time time_since_last s =
     (let s1 = store_byte env byte s;
          s2 = s1\<lparr>last_char_time := current_time\<rparr>
      in if unat (data_tx_len s2) \<ge> DATA_TX_BUFFER_SIZE - 20 \<or> time_since_last > 10
         then snd (Module_Mode_FlushTxBuffer env s2)
         else s2)"

definition Module_Mode_ProcessDataByte :: "ble_env \<Rightarrow> uint8_t \<Rightarrow> mode_state \<Rightarrow> mode_state" where
  "Module_Mode_ProcessDataByte env byte s =
     (let current_time = HAL_GetTick env;
          time_since_last = current_time - last_char_time s;
          (returned, s1) = escape_bookkeeping byte current_time time_since_last s
      in if returned then s1
         else store_and_autoflush env byte current_time time_since_last s1)"

definition Module_Mode_IsEscapeDetected :: "ble_env \<Rightarrow> mode_state \<Rightarrow> uint8_t \<times> mode_state" where
  "Module_Mode_IsEscapeDetected env s =
     (let current_time = HAL_GetTick env in
      if escape_detected s \<noteq> 0 \<and> current_time - last_char_time s \<ge> ESCAPE_GUARD_TIME_MS
      then (1, s\<lparr>escape_detected := 0, escape_count := 0\<rparr>)
      else (0, s))"

section \<open>Argument parsers (at\_command.c, static helpers)\<close>

text \<open>
  A C string is the list of its characters before the terminating NUL; a pointer that may
  be NULL is an \<open>option\<close>.  \<open>c_at s k\<close> reads \<open>s[k]\<close>: the terminator at the end and,
  in the zero-padded command buffer, NUL after it.
\<close>

definition char_code :: "char \<Rightarrow> nat" where
  "char_code c = of_char c"

definition c_at :: "string \<Rightarrow> nat \<Rightarrow> char" where
  "c_at s k = (if k < length s then s ! k else CHR 0x00)"

definition is_digit :: "char \<Rightarrow> bool" where
  "is_digit c \<longleftrightarrow> char_code c \<ge> char_code CHR ''0'' \<and> char_code c \<le> char_code CHR ''9''"

fun ParseUInt16_loop :: "string \<Rightarrow> uint32_t \<Rightarrow> uint16_t" where
  "ParseUInt16_loop [] val = ucast val"
| "ParseUInt16_loop (c # cs) val =
     (if is_digit c then
        (let val' = val * 10 + of_nat (char_code c - char_code CHR ''0'') in
         if val' > 0xFFFF then 0 else ParseUInt16_loop cs val')
      else ucast val)"

definition ParseUInt16 :: "string option \<Rightarrow> uint16_t" where
  "ParseUInt16 str =
     (case str of None \<Rightarrow> 0
      | Some s \<Rightarrow> if s = [] then 0 else ParseUInt16_loop s 0)"

fun ParseUInt8_loop :: "string \<Rightarrow> uint16_t \<Rightarrow> uint8_t" where
  "ParseUInt8_loop [] val = ucast val"
| "ParseUInt8_loop (c # cs) val =
     (if is_digit c then
        (let val' = val * 10 + of_nat (char_code c - char_code CHR ''0'') in
         if val' > 0xFF then 0xFF else ParseUInt8_loop cs val')
      else ucast val)"

definition ParseUInt8 :: "string option \<Rightarrow> uint8_t" where
  "ParseUInt8 str =
     (case str of None \<Rightarrow> 0xFF
      | Some s \<Rightarrow> if s = [] then 0xFF else ParseUInt8_loop s 0)"

fun SkipToComma_loop :: "string \<Rightarrow> string option" where
  "SkipToComma_loop [] = None"
| "SkipToComma_loop (c # cs) = (if c = CHR '','' then Some cs else SkipToComma_loop cs)"

definition SkipToComma :: "string option \<Rightarrow> string option" where
  "SkipToComma str = (case str of None \<Rightarrow> None | Some s \<Rightarrow> SkipToComma_loop s)"

definition ParseHexNibble :: "char \<Rightarrow> uint8_t" where
  "ParseHexNibble c =
     (if char_code c \<ge> char_code CHR ''0'' \<and> char_code c \<le> char_code CHR ''9''
        then of_nat (char_code c - char_code CHR ''0'')
      else if char_code c \<ge> char_code CHR ''A'' \<and> char_code c \<le> char_code CHR ''F''
        then of_nat (char_code c - char_code CHR ''A'' + 10)
      else if char_code c \<ge> char_code CHR ''a'' \<and> char_code c \<le> char_code CHR ''f''
        then of_nat (char_code c - char_code CHR ''a'' + 10)
      else 0xFF)"

text \<open>
  The loop of \<open>ParseHexString\<close> with the check after it (lines 158-176).  The three
  equations are: two characters left, one character left, none left.
\<close>

fun ParseHexString_loop :: "string \<Rightarrow> uint8_t list \<Rightarrow> nat \<Rightarrow> nat \<Rightarrow> int \<times> uint8_t list" where
  "ParseHexString_loop (c0 # c1 # rest) out_bytes i max_len =
     (if i < max_len then
        (let hi = ParseHexNibble c0; lo = ParseHexNibble c1 in
         if hi = 0xFF \<or> lo = 0xFF then (- 1, out_bytes)
         else ParseHexString_loop rest (out_bytes[i := push_bit 4 hi OR lo]) (i + 1) max_len)
      else (int i, out_bytes))"
| "ParseHexString_loop [c0] out_bytes i max_len = (- 1, out_bytes)"
| "ParseHexString_loop [] out_bytes i max_len = (int i, out_bytes)"

definition ParseHexString ::
  "string option \<Rightarrow> uint8_t list \<Rightarrow> uint16_t \<Rightarrow> int \<times> uint8_t list" where
  "ParseHexString hex_str out_bytes max_len =
     (case hex_str of None \<Rightarrow> (- 1, out_bytes)
      | Some s \<Rightarrow>
          if max_len = 0 then (- 1, out_bytes)
          else if length s mod 2 \<noteq> 0 then (- 1, out_bytes)
          else if length s div 2 > unat max_len then (- 1, out_bytes)
          else ParseHexString_loop s out_bytes 0 (unat max_len))"

text \<open>The nibble test written out twice in \<open>ParseMACString\<close> (lines 197-200 and 204-207).\<close>

definition mac_nibble :: "char \<Rightarrow> uint8_t option" where
  "mac_nibble c =
     (if char_code c \<ge> char_code CHR ''0'' \<and> char_code c \<le> char_code CHR ''9''
        then Some (of_nat (char_code c - char_code CHR ''0''))
      else if char_code c \<ge> char_code CHR ''A'' \<and> char_code c \<le> char_code CHR ''F''
        then Some (of_nat (char_code c - char_code CHR ''A'' + 10))
      else if char_code c \<ge> char_code CHR ''a'' \<and> char_code c \<le> char_code CHR ''f''
        then Some (of_nat (char_code c - char_code CHR ''a'' + 10))
      else None)"

text \<open>The \<open>for\<close> loop of \<open>ParseMACString\<close> at index \<open>i\<close>, with \<open>n\<close> iterations left.\<close>

fun ParseMACString_loop :: "nat \<Rightarrow> nat \<Rightarrow> string \<Rightarrow> uint8_t list \<Rightarrow> int \<times> uint8_t list" where
  "ParseMACString_loop 0 i mac_str mac_bytes = (0, mac_bytes)"
| "ParseMACString_loop (Suc n) i mac_str mac_bytes =
     (case mac_nibble (c_at mac_str (i * 3)) of
        None \<Rightarrow> (- 1, mac_bytes)
      | Some hi \<Rightarrow>
          (case mac_nibble (c_at mac_str (i * 3 + 1)) of
             None \<Rightarrow> (- 1, mac_bytes)
           | Some lo \<Rightarrow>
               let mac_bytes' = mac_bytes[i := push_bit 4 hi OR lo] in
               if i < 5 \<and> c_at mac_str (i * 3 + 2) \<noteq> CHR '':''
               then (- 1, mac_bytes')
               else ParseMACString_loop n (Suc i) mac_str mac_bytes'))"

definition ParseMACString :: "string option \<Rightarrow> uint8_t list \<Rightarrow> int \<times> uint8_t list" where
  "ParseMACString mac_str mac_bytes =
     (case mac_str of None \<Rightarrow> (- 1, mac_bytes)
      | Some s \<Rightarrow> ParseMACString_loop 6 0 s mac_bytes)"

section \<open>Formatting of responses\<close>

text \<open>The conversions of \<open>printf\<close> that the handlers below use: \<open>%d\<close>, \<open>%02X\<close>, \<open>%04X\<close>.\<close>

fun dec_digits :: "nat \<Rightarrow> string" where
  "dec_digits n =
     (if n < 10 then [''0123456789'' ! n]
      else dec_digits (n div 10) @ [''0123456789'' ! (n mod 10)])"

declare dec_digits.simps [simp del]

definition fmt_d :: "int \<Rightarrow> string" where
  "fmt_d v = (if v < 0 then CHR ''-'' # dec_digits (nat (- v)) else dec_digits (nat v))"

definition hex_digit :: "nat \<Rightarrow> char" where
  "hex_digit n = ''0123456789ABCDEF'' ! (n mod 16)"

definition fmt_02X :: "uint8_t \<Rightarrow> string" where
  "fmt_02X b = [hex_digit (unat b div 16), hex_digit (unat b)]"

definition fmt_04X :: "uint16_t \<Rightarrow> string" where
  "fmt_04X h =
     [hex_digit (unat h div 4096), hex_digit (unat h div 256),
      hex_digit (unat h div 16), hex_digit (unat h)]"

section \<open>Command handlers (at\_command.c)\<close>

definition send_OK :: "mode_state \<Rightarrow> mode_state" where
  "send_OK s = AT_Response_Send (''OK'' @ CRLF) s"

definition send_ERROR :: "mode_state \<Rightarrow> mode_state" where
  "send_ERROR s = AT_Response_Send (''ERROR'' @ CRLF) s"

definition log_call :: "ext_call \<Rightarrow> mode_state \<Rightarrow> mode_state" where
  "log_call c s = s\<lparr>ext_calls := ext_calls s @ [c]\<rparr>"

text \<open>The \<open>+DEV\<close> line of \<open>AT_LIST_Handler\<close> (lines 683-689), formatted.\<close>

definition dev_line :: "nat \<Rightarrow> BLE_Device_t \<Rightarrow> string" where
  "dev_line i dev =
     ''+DEV:'' @ fmt_d (int i) @ '','' @
     fmt_02X (mac_addr dev ! 5) @ '':'' @ fmt_02X (mac_addr dev ! 4) @ '':'' @
     fmt_02X (mac_addr dev ! 3) @ '':'' @ fmt_02X (mac_addr dev ! 2) @ '':'' @
     fmt_02X (mac_addr dev ! 1) @ '':'' @ fmt_02X (mac_addr dev ! 0) @ '','' @
     fmt_d (rssi dev) @ '',0x'' @ fmt_04X (conn_handle dev) @ '','' @
     (if name dev \<noteq> [] then name dev else ''Unknown'') @ CRLF"

text \<open>The loop of \<open>AT_LIST_Handler\<close> at index \<open>i\<close>, with \<open>n\<close> iterations left.\<close>

fun AT_LIST_loop :: "ble_env \<Rightarrow> nat \<Rightarrow> nat \<Rightarrow> mode_state \<Rightarrow> mode_state" where
  "AT_LIST_loop env 0 i s = s"
| "AT_LIST_loop env (Suc n) i s =
     AT_LIST_loop env n (Suc i)
       (case BLE_DeviceManager_GetDevice env i of
          None \<Rightarrow> s
        | Some dev \<Rightarrow> AT_Response_Send (dev_line i dev) s)"

definition AT_LIST_Handler :: "ble_env \<Rightarrow> mode_state \<Rightarrow> int \<times> mode_state" where
  "AT_LIST_Handler env s =
     (let count = BLE_DeviceManager_GetCount env;
          s1 = AT_Response_Send (''+LIST:'' @ fmt_d (uint count) @ CRLF) s;
          s2 = AT_LIST_loop env (unat count) 0 s1
      in (0, send_OK s2))"

text \<open>
  \<open>mac\<close> is an uninitialised local array of 6 bytes; every byte is written before the
  handler reads it, so its first content is taken as zero.
\<close>

definition AT_CONNECT_Handler :: "ble_env \<Rightarrow> string option \<Rightarrow> mode_state \<Rightarrow> int \<times> mode_state" where
  "AT_CONNECT_Handler env mac_str s =
     (let (r, mac) = ParseMACString mac_str (replicate 6 0) in
      if r \<noteq> 0 then (- 1, send_ERROR s)
      else if BLE_DeviceManager_FindDevice env mac < 0
      then (- 1, AT_Response_Send (''+ERROR:NOT_FOUND'' @ CRLF) s)
      else
        let s1 = log_call (Create_Connection mac) s in
        if BLE_Connection_CreateConnection env mac \<noteq> 0 then (- 1, send_ERROR s1)
        else (0, send_OK s1))"

definition AT_READ_Handler ::
  "ble_env \<Rightarrow> uint8_t \<Rightarrow> uint16_t \<Rightarrow> mode_state \<Rightarrow> int \<times> mode_state" where
  "AT_READ_Handler env dev_idx char_handle s =
     (case BLE_DeviceManager_GetDevice env (unat dev_idx) of
        None \<Rightarrow> (- 1, AT_Response_Send (''+ERROR:NOT_CONNECTED'' @ CRLF) s)
      | Some dev \<Rightarrow>
          if \<not> is_connected dev
          then (- 1, AT_Response_Send (''+ERROR:NOT_CONNECTED'' @ CRLF) s)
          else
            let s1 = log_call (GATT_Read (conn_handle dev) char_handle) s in
            if BLE_GATT_ReadCharacteristic env (conn_handle dev) char_handle \<noteq> 0
            then (- 1, send_ERROR s1)
            else (0, send_OK s1))"

definition AT_WRITE_MAX_DATA_LEN :: uint16_t where
  "AT_WRITE_MAX_DATA_LEN = 64"

text \<open>\<open>write_buf\<close> is an uninitialised local array of 64 bytes, taken as zero at first.\<close>

definition AT_WRITE_Handler ::
  "ble_env \<Rightarrow> uint8_t \<Rightarrow> uint16_t \<Rightarrow> string option \<Rightarrow> mode_state \<Rightarrow> int \<times> mode_state" where
  "AT_WRITE_Handler env dev_idx char_handle data s =
     (case BLE_DeviceManager_GetDevice env (unat dev_idx) of
        None \<Rightarrow> (- 1, AT_Response_Send (''+ERROR:NOT_CONNECTED'' @ CRLF) s)
      | Some dev \<Rightarrow>
          if \<not> is_connected dev
          then (- 1, AT_Response_Send (''+ERROR:NOT_CONNECTED'' @ CRLF) s)
          else if data = None \<or> data = Some []
          then (- 1, AT_Response_Send (''+ERROR:NO_DATA'' @ CRLF) s)
          else
            let (data_len, write_buf) =
                  ParseHexString data (replicate (unat AT_WRITE_MAX_DATA_LEN) 0)
                    AT_WRITE_MAX_DATA_LEN
            in
            if data_len \<le> 0
            then (- 1, AT_Response_Send (''+ERROR:INVALID_HEX'' @ CRLF) s)
            else
              let payload = take (nat data_len) write_buf;
                  s1 = log_call (GATT_Write (conn_handle dev) char_handle payload) s
              in
              if BLE_GATT_WriteCharacteristic env (conn_handle dev) char_handle payload \<noteq> 0
              then (- 1, send_ERROR s1)
              else (0, send_OK s1))"

definition AT_CMDMODE_Handler :: "ble_env \<Rightarrow> mode_state \<Rightarrow> int \<times> mode_state" where
  "AT_CMDMODE_Handler env s =
     (let (r, s1) = Module_Mode_EnterCommand env s in
      if r = 0 then (0, send_OK s1) else (- 1, send_ERROR s1))"

definition AT_DATAMODE_Handler ::
  "ble_env \<Rightarrow> uint8_t \<Rightarrow> uint16_t \<Rightarrow> mode_state \<Rightarrow> int \<times> mode_state" where
  "AT_DATAMODE_Handler env dev_idx char_handle s =
     (let (r, s1) = Module_Mode_EnterData env dev_idx char_handle s in
      if r = 0 then (0, send_OK s1)
      else (- 1, AT_Response_Send (''+ERROR:NOT_CONNECTED'' @ CRLF) s1))"

text \<open>A handler that is not embedded: its invocation is recorded.\<close>

definition call_handler :: "string \<Rightarrow> handler_arg list \<Rightarrow> mode_state \<Rightarrow> mode_state" where
  "call_handler nm args s = log_call (Handler nm args) s"

section \<open>Command dispatcher (\<open>AT_Command_Process\<close>)\<close>

text \<open>\<open>strcmp(a, b) == 0\<close> and \<open>strncmp(a, b, n) == 0\<close> on C strings.\<close>

definition strcmp_eq :: "string \<Rightarrow> string \<Rightarrow> bool" where
  "strcmp_eq a b \<longleftrightarrow> a = b"

definition strncmp_eq :: "string \<Rightarrow> string \<Rightarrow> nat \<Rightarrow> bool" where
  "strncmp_eq a b n \<longleftrightarrow> take n a = take n b"

definition is_trailing_ws :: "char \<Rightarrow> bool" where
  "is_trailing_ws c \<longleftrightarrow> c = CHR 0x0D \<or> c = CHR 0x0A \<or> c = CHR '' ''"

text \<open>The trimming loop of lines 344-347.\<close>

function rtrim :: "string \<Rightarrow> string" where
  "rtrim cmd = (if cmd \<noteq> [] \<and> is_trailing_ws (last cmd) then rtrim (butlast cmd) else cmd)"
  by pat_completeness auto
termination
  by (relation "measure length") auto

declare rtrim.simps [simp del]

text \<open>
  The chain of comparisons of lines 365-594, on the trimmed command \<open>cmd\<close>, in the
  order of the source.  \<open>&cmd[k]\<close> is \<open>drop k cmd\<close>.
\<close>

definition AT_dispatch :: "ble_env \<Rightarrow> string \<Rightarrow> mode_state \<Rightarrow> mode_state" where
  "AT_dispatch env cmd w =
    (if strcmp_eq cmd ''AT'' then send_OK w
     else if strncmp_eq cmd ''AT+SCAN'' 7 then
       (let parsed = (if c_at cmd 7 = CHR ''='' \<and> c_at cmd 8 \<noteq> CHR 0x00
                      then ParseUInt16 (Some (drop 8 cmd)) else 0);
            duration = (if parsed > 0 then parsed else 5000)
        in call_handler ''AT_SCAN_Handler'' [U16 duration] w)
     else if strcmp_eq cmd ''AT+STOP'' then
       (let w1 = log_call Stop_Scan w in
        if BLE_Connection_StopScan env = 0 then send_OK w1 else send_ERROR w1)
     else if strcmp_eq cmd ''AT+CLEAR'' then send_OK (log_call DeviceManager_Clear w)
     else if strncmp_eq cmd ''AT+LIST'' 7 then snd (AT_LIST_Handler env w)
     else if strncmp_eq cmd ''AT+CONNECT='' 11 then
       snd (AT_CONNECT_Handler env (Some (drop 11 cmd)) w)
     else if strncmp_eq cmd ''AT+DISCONNECT='' 14 then
       (let idx = ParseUInt8 (Some (drop 14 cmd)) in
        if idx \<noteq> 0xFF then call_handler ''AT_DISCONNECT_Handler'' [U8 idx] w
        else send_ERROR w)
     else if strncmp_eq cmd ''AT+READ='' 8 then
       (let idx = ParseUInt8 (Some (drop 8 cmd));
            p = SkipToComma (Some (drop 8 cmd))
        in if p \<noteq> None \<and> idx \<noteq> 0xFF then
             (let handle = ParseUInt16 p in
              if handle > 0 then snd (AT_READ_Handler env idx handle w)
              else send_ERROR w)
           else send_ERROR w)
     else if strncmp_eq cmd ''AT+WRITE='' 9 then
       (let idx = ParseUInt8 (Some (drop 9 cmd));
            p = SkipToComma (Some (drop 9 cmd))
        in if p \<noteq> None \<and> idx \<noteq> 0xFF then
             (let handle = ParseUInt16 p;
                  p2 = SkipToComma p
              in if p2 \<noteq> None \<and> handle > 0 \<and> p2 \<noteq> Some []
                 then snd (AT_WRITE_Handler env idx handle p2 w)
                 else send_ERROR w)
           else send_ERROR w)
     else if strncmp_eq cmd ''AT+NOTIFY='' 10 then
       (let idx = ParseUInt8 (Some (drop 10 cmd));
            p = SkipToComma (Some (drop 10 cmd))
        in if p \<noteq> None \<and> idx \<noteq> 0xFF then
             (let handle = ParseUInt16 p;
                  p2 = SkipToComma p
              in if p2 \<noteq> None \<and> handle > 0 then
                   (let enable = ParseUInt8 p2 in
                    if enable \<noteq> 0xFF
                    then call_handler ''AT_NOTIFY_Handler'' [U8 idx, U16 handle, U8 enable] w
                    else send_ERROR w)
                 else send_ERROR w)
           else send_ERROR w)
     else if strncmp_eq cmd ''AT+DISC='' 8 then
       (let idx = ParseUInt8 (Some (drop 8 cmd)) in
        if idx \<noteq> 0xFF then call_handler ''AT_DISC_Handler'' [U8 idx] w
        else send_ERROR w)
     else if strncmp_eq cmd ''AT+INFO='' 8 then
       (let idx = ParseUInt8 (Some (drop 8 cmd)) in
        if idx \<noteq> 0xFF then call_handler ''AT_INFO_Handler'' [U8 idx] w
        else send_ERROR w)
     else if strcmp_eq cmd ''AT+RESET'' then call_handler ''AT_RESET_Handler'' [] w
     else if strcmp_eq cmd ''AT+HWRESET'' then call_handler ''AT_HWRESET_Handler'' [] w
     else if strcmp_eq cmd ''AT+FACTORY'' then call_handler ''AT_FACTORY_Handler'' [] w
     else if strcmp_eq cmd ''AT+GETINFO'' then call_handler ''AT_GETINFO_Handler'' [] w
     else if strncmp_eq cmd ''AT+NAME='' 8 then
       call_handler ''AT_NAME_Handler'' [Str (drop 8 cmd)] w
     else if strncmp_eq cmd ''AT+COMM='' 8 then
       (let baud = (ucast (ParseUInt16 (Some (drop 8 cmd))) :: uint32_t);
            p = SkipToComma (Some (drop 8 cmd))
        in if p \<noteq> None then
             (let parity = ParseUInt8 p;
                  p2 = SkipToComma p
              in if p2 \<noteq> None
                 then call_handler ''AT_COMM_Handler'' [U32 baud, U8 parity, U8 (ParseUInt8 p2)] w
                 else send_ERROR w)
           else send_ERROR w)
     else if strncmp_eq cmd ''AT+RF='' 6 then
       (let tx_power = ParseUInt8 (Some (drop 6 cmd));
            p = SkipToComma (Some (drop 6 cmd))
        in if p \<noteq> None then
             (let scan_int = ParseUInt16 p;
                  p2 = SkipToComma p
              in if p2 \<noteq> None
                 then call_handler ''AT_RF_Handler''
                        [U8 tx_power, U16 scan_int, U16 (ParseUInt16 p2)] w
                 else send_ERROR w)
           else send_ERROR w)
     else if strcmp_eq cmd ''AT+SAVE'' then call_handler ''AT_SAVE_Handler'' [] w
     else if strcmp_eq cmd ''AT+CMDMODE'' then snd (AT_CMDMODE_Handler env w)
     else if strncmp_eq cmd ''AT+DATAMODE='' 12 then
       (let idx = ParseUInt8 (Some (drop 12 cmd));
            p = SkipToComma (Some (drop 12 cmd))
        in if p \<noteq> None \<and> idx \<noteq> 0xFF then
             (let handle = ParseUInt16 p in
              if handle > 0 then snd (AT_DATAMODE_Handler env idx handle w)
              else send_ERROR w)
           else send_ERROR w)
     else if strncmp_eq cmd ''AT+STATUS'' 9 then
       (let idx = (if c_at cmd 9 = CHR ''='' \<and> c_at cmd 10 \<noteq> CHR 0x00
                   then ParseUInt8 (Some (drop 10 cmd)) else 0xFF)
        in call_handler ''AT_STATUS_Handler'' [U8 idx] w)
     else if strncmp_eq cmd ''AT+SLEEP'' 8 then
       (if c_at cmd 8 = CHR ''='' \<and> c_at cmd 9 \<noteq> CHR 0x00 then
          (let mode = ParseUInt8 (Some (drop 9 cmd));
               p = SkipToComma (Some (drop 9 cmd))
           in if p \<noteq> None then
                (let wake_mask = ParseUInt8 p;
                     p2 = SkipToComma p;
                     timeout_ms = (if p2 \<noteq> None then ucast (ParseUInt16 p2) else 0 :: uint32_t)
                 in call_handler ''AT_SLEEP_Handler'' [U8 mode, U8 wake_mask, U32 timeout_ms] w)
              else call_handler ''AT_SLEEP_Handler'' [U8 mode, U8 0x01, U32 0] w)
        else call_handler ''AT_SLEEP_Handler'' [U8 1, U8 0x01, U32 0] w)
     else if strcmp_eq cmd ''AT+WAKE'' then call_handler ''AT_WAKE_Handler'' [] w
     else if strncmp_eq cmd ''AT+DIAG='' 8 then
       (let idx = ParseUInt8 (Some (drop 8 cmd)) in
        if idx \<noteq> 0xFF then call_handler ''AT_DIAG_Handler'' [U8 idx] w
        else send_ERROR w)
     else w)"

text \<open>
  \<open>AT_Command_Process\<close>: the copy into the 128-byte local buffer (\<open>strncpy\<close> of at most
  127 characters), the trimming, the length and prefix tests, then the dispatch.
\<close>

definition AT_Command_Process :: "ble_env \<Rightarrow> string option \<Rightarrow> mode_state \<Rightarrow> mode_state" where
  "AT_Command_Process env cmd_line w =
     (case cmd_line of
        None \<Rightarrow> w
      | Some line \<Rightarrow>
          if line = [] then w
          else
            let cmd = rtrim (take (AT_CMD_MAX_LEN - 1) line) in
            if length cmd < 2 then w
            else if \<not> ((c_at cmd 0 = CHR ''A'' \<or> c_at cmd 0 = CHR ''a'') \<and>
                        (c_at cmd 1 = CHR ''T'' \<or> c_at cmd 1 = CHR ''t''))
            then w
            else AT_dispatch env cmd w)"

text \<open>
  \<open>AT_Command_ProcessReady\<close>: nothing when no line is ready; otherwise the critical
  section, then the dispatch of the copied line read as a C string.
\<close>

definition AT_Command_ProcessReady ::
  "ble_env \<Rightarrow> at_rx \<times> mode_state \<Rightarrow> at_rx \<times> mode_state" where
  "AT_Command_ProcessReady env sys =
     (let (rx, w) = sys in
      if at_cmd_ready rx = 0 then (rx, w)
      else
        let rx1 = drain_critical_section rx;
            line = map (\<lambda>b. char_of (unat b)) (c_string (at_cmd_buf rx1))
        in (rx1, AT_Command_Process env (Some line) w))"

section \<open>Runs of the receiver\<close>

text \<open>
  The two entry points that touch the receiver's variables: a byte from the interrupt,
  and the sequencer task that drains a ready line.  A run is a list of such steps, each
  with the collaborators' answers at that moment.
\<close>

datatype rx_action = Rx uint8_t | Drain

fun sys_step :: "ble_env \<times> rx_action \<Rightarrow> at_rx \<times> mode_state \<Rightarrow> at_rx \<times> mode_state" where
  "sys_step (env, Rx b) sys = (AT_Command_ReceiveByte b (fst sys), snd sys)"
| "sys_step (env, Drain) sys = AT_Command_ProcessReady env sys"

definition sys_run ::
  "(ble_env \<times> rx_action) list \<Rightarrow> at_rx \<times> mode_state \<Rightarrow> at_rx \<times> mode_state" where
  "sys_run steps sys = fold sys_step steps sys"

text \<open>The invariant of the receiver's variables.\<close>

definition rx_inv :: "at_rx \<Rightarrow> bool" where
  "rx_inv s \<longleftrightarrow>
     length (at_line_buf s) = AT_CMD_MAX_LEN \<and>
     length (at_cmd_buf s) = AT_CMD_MAX_LEN \<and>
     unat (at_line_idx s) < AT_CMD_MAX_LEN \<and>
     (\<forall>i < unat (at_line_idx s). at_line_buf s ! i \<noteq> 0) \<and>
     (at_cmd_ready s \<noteq> 0 \<longrightarrow>
        2 \<le> unat (at_line_idx s) \<and> at_line_buf s ! unat (at_line_idx s) = 0)"

section \<open>Runs of the mode controller\<close>

text \<open>
  The two entry points of the data path: a byte handed to \<open>Module_Mode_ProcessDataByte\<close>
  and a call of \<open>Module_Mode_FlushTxBuffer\<close>, each with the collaborators' answers (tick,
  device table, result of the GATT write) at that moment.
\<close>

datatype mode_action = DataByte uint8_t | Flush

fun mode_step :: "ble_env \<times> mode_action \<Rightarrow> mode_state \<Rightarrow> mode_state" where
  "mode_step (env, DataByte b) s = Module_Mode_ProcessDataByte env b s"
| "mode_step (env, Flush) s = snd (Module_Mode_FlushTxBuffer env s)"

text \<open>The test of line 234 on the target device.\<close>

definition target_connected :: "ble_env \<Rightarrow> mode_state \<Rightarrow> bool" where
  "target_connected env s =
     (case BLE_DeviceManager_GetDevice env (unat (target_dev_idx s)) of
        None \<Rightarrow> False
      | Some dev \<Rightarrow> is_connected dev)"

text \<open>
  All bytes taken as payload so far: those already handed to the GATT write, in order,
  followed by those still in the transmit buffer.
\<close>

fun written_bytes :: "ext_call list \<Rightarrow> uint8_t list" where
  "written_bytes [] = []"
| "written_bytes (GATT_Write c h d # cs) = d @ written_bytes cs"
| "written_bytes (c # cs) = written_bytes cs"

definition tx_payload :: "mode_state \<Rightarrow> uint8_t list" where
  "tx_payload s = written_bytes (ext_calls s) @ take (unat (data_tx_len s)) (data_tx_buffer s)"

section \<open>Concrete states and collaborators for the examples\<close>

text \<open>The mode controller's variables as the C start-up code leaves them.\<close>

definition mode_reset :: mode_state where
  "mode_reset =
     \<lparr>current_mode = MODE_COMMAND, target_dev_idx = 0xFF, target_char_handle = 0,
      data_tx_buffer = replicate DATA_TX_BUFFER_SIZE 0, data_tx_len = 0,
      escape_count = 0, last_char_time = 0, escape_start_time = 0, escape_detected = 0,
      uart_tx = [], ext_calls = [], tx_store_idx = []\<rparr>"

definition dev_A :: BLE_Device_t where
  "dev_A = \<lparr>mac_addr = [0x66, 0x55, 0x44, 0x33, 0x22, 0x11], rssi = - 60,
            conn_handle = 0x0801, is_connected = True, name = ''Sensor''\<rparr>"

definition dev_B :: BLE_Device_t where
  "dev_B = \<lparr>mac_addr = [0xFF, 0xEE, 0xDD, 0xCC, 0xBB, 0xAA], rssi = - 75,
            conn_handle = 0x0802, is_connected = True, name = []\<rparr>"

text \<open>
  Two known, connected devices at indices 0 and 1; every collaborator request succeeds;
  the tick counter reads \<open>t\<close>.
\<close>

definition env_two :: "uint32_t \<Rightarrow> ble_env" where
  "env_two t =
     \<lparr>HAL_GetTick = t,
      BLE_DeviceManager_GetDevice = (\<lambda>i. if i = 0 then Some dev_A else if i = 1 then Some dev_B else None),
      BLE_DeviceManager_GetCount = 2,
      BLE_DeviceManager_FindDevice = (\<lambda>mac. if mac = mac_addr dev_A then 0 else if mac = mac_addr dev_B then 1 else - 1),
      BLE_GATT_WriteCharacteristic = (\<lambda>c h d. 0),
      BLE_GATT_ReadCharacteristic = (\<lambda>c h. 0),
      BLE_Connection_CreateConnection = (\<lambda>mac. 0),
      BLE_Connection_StopScan = 0\<rparr>"

text \<open>The receiver after the bytes \<open>A\<close>, \<open>T\<close>, CR from its initial state.\<close>

definition rx_after_AT :: at_rx where
  "rx_after_AT =
     \<lparr>at_line_buf = (replicate AT_CMD_MAX_LEN 0)[0 := 0x41, 1 := 0x54, 2 := 0],
      at_line_idx = 2, at_cmd_ready = 1, at_garbage_count = 0,
      at_cmd_buf = replicate AT_CMD_MAX_LEN 0, at_rx_tick = 0, seq_tasks_set = 1\<rparr>"

text \<open>
  Data mode towards device 0, characteristic handle 18, entered at tick 0 from the
  start-up state.
\<close>

definition mode_data_example :: mode_state where
  "mode_data_example = snd (Module_Mode_EnterData (env_two 0) 0 18 mode_reset)"

text \<open>As \<open>env_two\<close>, but the GATT write reports an error.\<close>

definition env_write_fails :: "uint32_t \<Rightarrow> ble_env" where
  "env_write_fails t = (env_two t)\<lparr>BLE_GATT_WriteCharacteristic := (\<lambda>c h d. 1)\<rparr>"

text \<open>As \<open>env_two\<close>, but device 0 is known and not connected.\<close>

definition env_disconnected :: "uint32_t \<Rightarrow> ble_env" where
  "env_disconnected t =
     (env_two t)\<lparr>BLE_DeviceManager_GetDevice :=
        (\<lambda>i. if i = 0 then Some (dev_A\<lparr>is_connected := False\<rparr>) else None)\<rparr>"

text \<open>
  From \<open>mode_data_example\<close> (last byte at tick 0): three \<open>+\<close> at ticks 1000, 1001, 1002
  and the byte \<open>x\<close> at tick 1003.
\<close>

definition escape_then_byte :: mode_state where
  "escape_then_byte =
     fold mode_step
       [(env_two 1000, DataByte 0x2B), (env_two 1001, DataByte 0x2B),
        (env_two 1002, DataByte 0x2B), (env_two 1003, DataByte 0x78)]
       mode_data_example"

section \<open>Decimal handle fields\<close>



section \<open>Hex payloads and MAC strings as the specification words them\<close>

text \<open>The alphabet \<open>[0-9A-Fa-f]\<close> and the value of a hex digit.\<close>

definition is_hex_char :: "char \<Rightarrow> bool" where
  "is_hex_char c \<longleftrightarrow>
     (char_code CHR ''0'' \<le> char_code c \<and> char_code c \<le> char_code CHR ''9'') \<or>
     (char_code CHR ''A'' \<le> char_code c \<and> char_code c \<le> char_code CHR ''F'') \<or>
     (char_code CHR ''a'' \<le> char_code c \<and> char_code c \<le> char_code CHR ''f'')"

definition hex_val :: "char \<Rightarrow> nat" where
  "hex_val c =
     (if char_code c \<le> char_code CHR ''9'' then char_code c - char_code CHR ''0''
      else if char_code c \<le> char_code CHR ''F'' then char_code c - char_code CHR ''A'' + 10
      else char_code c - char_code CHR ''a'' + 10)"

text \<open>
  The standard hex encoding of a byte sequence, two digits per byte, in upper case and in
  lower case; and the upper-case form of a hex digit.
\<close>

definition hex_encode :: "uint8_t list \<Rightarrow> string" where
  "hex_encode bs = concat (map fmt_02X bs)"

definition hex_digit_lower :: "nat \<Rightarrow> char" where
  "hex_digit_lower n = ''0123456789abcdef'' ! (n mod 16)"

definition hex_encode_lower :: "uint8_t list \<Rightarrow> string" where
  "hex_encode_lower bs =
     concat (map (\<lambda>b. [hex_digit_lower (unat b div 16), hex_digit_lower (unat b)]) bs)"

definition hex_upper :: "char \<Rightarrow> char" where
  "hex_upper c = (case map_of (zip ''abcdef'' ''ABCDEF'') c of Some u \<Rightarrow> u | None \<Rightarrow> c)"

text \<open>
  The 17-character MAC form: six groups of two hex digits, a colon after each of the
  first five; and the six octets it denotes, in the order of the string.
\<close>

definition mac_group_ok :: "string \<Rightarrow> nat \<Rightarrow> bool" where
  "mac_group_ok s j \<longleftrightarrow>
     is_hex_char (c_at s (3 * j)) \<and> is_hex_char (c_at s (3 * j + 1)) \<and>
     (j < 5 \<longrightarrow> c_at s (3 * j + 2) = CHR '':'')"

definition is_mac17 :: "string \<Rightarrow> bool" where
  "is_mac17 s \<longleftrightarrow> length s = 17 \<and> (\<forall>j<6. mac_group_ok s j)"

definition mac_octet :: "string \<Rightarrow> nat \<Rightarrow> uint8_t" where
  "mac_octet s j = of_nat (16 * hex_val (c_at s (3 * j)) + hex_val (c_at s (3 * j + 1)))"

definition mac_octets :: "string \<Rightarrow> uint8_t list" where
  "mac_octets s = map (mac_octet s) [0..<6]"

text \<open>The bytes a string of hex digit pairs denotes, pair by pair.\<close>

fun hex_pairs :: "string \<Rightarrow> uint8_t list" where
  "hex_pairs (c0 # c1 # rest) = of_nat (16 * hex_val c0 + hex_val c1) # hex_pairs rest"
| "hex_pairs [c0] = []"
| "hex_pairs [] = []"

section \<open>Frame property of the receiver\<close>

text \<open>
  Claim C5: while the ready flag is set, a call of \<open>AT_Command_ReceiveByte\<close> leaves the
  line buffer, the fill index and the ready flag as they are; the only variable it changes
  is the tick counter, so the byte is dropped.
\<close>

theorem C5_ready_drops_bytes:
  "at_cmd_ready s \<noteq> 0 \<Longrightarrow>
     AT_Command_ReceiveByte b s = s\<lparr>at_rx_tick := at_rx_tick s + 1\<rparr>
     \<and> at_line_buf (AT_Command_ReceiveByte b s) = at_line_buf s
     \<and> at_line_idx (AT_Command_ReceiveByte b s) = at_line_idx s
     \<and> at_cmd_ready (AT_Command_ReceiveByte b s) = at_cmd_ready s"
  by (simp add: AT_Command_ReceiveByte_def Let_def)

theorem C5_ready_drops_bytes_witness:
  "at_cmd_ready (AT_Command_Init rx_reset\<lparr>at_cmd_ready := 1\<rparr>) \<noteq> 0
   \<and> at_line_buf (AT_Command_ReceiveByte 0x41 (AT_Command_Init rx_reset\<lparr>at_cmd_ready := 1\<rparr>))
       = replicate AT_CMD_MAX_LEN 0
   \<and> at_rx_tick (AT_Command_ReceiveByte 0x41 (AT_Command_Init rx_reset\<lparr>at_cmd_ready := 1\<rparr>)) = 1"
  using C5_ready_drops_bytes [of "AT_Command_Init rx_reset\<lparr>at_cmd_ready := 1\<rparr>" "0x41"]
  by (simp add: AT_Command_Init_def)

section \<open>Invariant of the receiver\<close>

lemma rx_inv_Init: "rx_inv (AT_Command_Init s)"
  by (simp add: rx_inv_def AT_Command_Init_def AT_CMD_MAX_LEN_def)

lemma rx_inv_timeout: "rx_inv s \<Longrightarrow> at_cmd_ready s = 0 \<Longrightarrow> rx_inv (rx_timeout_check s)"
  by (simp add: rx_inv_def rx_timeout_check_def AT_CMD_MAX_LEN_def)

lemma ready_timeout [simp]: "at_cmd_ready (rx_timeout_check s) = at_cmd_ready s"
  by (simp add: rx_timeout_check_def)

lemma rx_inv_terminator: "rx_inv s \<Longrightarrow> at_cmd_ready s = 0 \<Longrightarrow> rx_inv (rx_terminator s)"
  by (auto simp add: rx_inv_def rx_terminator_def AT_CMD_MAX_LEN_def word_le_nat_alt nth_list_update)

lemma rx_inv_garbage: "rx_inv s \<Longrightarrow> at_cmd_ready s = 0 \<Longrightarrow> rx_inv (rx_garbage s)"
  by (simp add: rx_inv_def rx_garbage_def AT_CMD_MAX_LEN_def Let_def)

lemma unat_idx_Suc: "unat (i :: uint16_t) < 127 \<Longrightarrow> unat (i + 1) = Suc (unat i)"
  by (simp add: unat_word_ariths)

lemma rx_inv_printable:
  "rx_inv s \<Longrightarrow> at_cmd_ready s = 0 \<Longrightarrow> ASCII_SPACE \<le> b \<Longrightarrow> rx_inv (rx_printable b s)"
  apply (auto simp add: rx_inv_def rx_printable_def AT_CMD_MAX_LEN_def unat_idx_Suc nth_list_update ASCII_SPACE_def less_Suc_eq)
  done

lemma rx_inv_ReceiveByte: "rx_inv s \<Longrightarrow> rx_inv (AT_Command_ReceiveByte b s)"
proof (cases "at_cmd_ready s = 0")
  case False
  assume "rx_inv s"
  with False show ?thesis
    by (simp add: AT_Command_ReceiveByte_def Let_def rx_inv_def)
next
  case True
  assume inv: "rx_inv s"
  let ?s1 = "s\<lparr>at_rx_tick := at_rx_tick s + 1\<rparr>"
  from inv have inv1: "rx_inv ?s1" by (simp add: rx_inv_def)
  from True have r1: "at_cmd_ready ?s1 = 0" by simp
  have inv2: "rx_inv (rx_timeout_check ?s1)" by (rule rx_inv_timeout [OF inv1 r1])
  have r2: "at_cmd_ready (rx_timeout_check ?s1) = 0" using r1 by simp
  show ?thesis
    using True rx_inv_terminator [OF inv2 r2] rx_inv_garbage [OF inv2 r2]
      rx_inv_printable [OF inv2 r2]
    by (simp add: AT_Command_ReceiveByte_def Let_def)
qed

lemma rx_inv_drain: "rx_inv s \<Longrightarrow> rx_inv (drain_critical_section s)"
  by (simp add: rx_inv_def drain_critical_section_def Let_def AT_CMD_MAX_LEN_def)

lemma fst_ProcessReady:
  "fst (AT_Command_ProcessReady env (rx, w)) =
     (if at_cmd_ready rx = 0 then rx else drain_critical_section rx)"
  by (simp add: AT_Command_ProcessReady_def Let_def)

lemma rx_inv_sys_step: "rx_inv (fst sys) \<Longrightarrow> rx_inv (fst (sys_step st sys))"
  by (cases st, cases sys, rename_tac env a rx w, case_tac a)
     (simp_all add: rx_inv_ReceiveByte fst_ProcessReady rx_inv_drain)

lemma rx_inv_fold: "rx_inv (fst sys) \<Longrightarrow> rx_inv (fst (fold sys_step steps sys))"
  by (induction steps arbitrary: sys) (simp_all add: rx_inv_sys_step)

lemma rx_inv_sys_run: "rx_inv (fst (sys_run steps (AT_Command_Init s0, w0)))"
  unfolding sys_run_def by (rule rx_inv_fold) (simp add: rx_inv_Init)

lemma c_string_take:
  assumes "n < length buf" "\<forall>i<n. buf ! i \<noteq> 0" "buf ! n = 0"
  shows "c_string buf = take n buf"
  unfolding c_string_def
  by (rule takeWhile_eq_take_P_nth) (use assms in auto)

lemma ready_line:
  assumes "rx_inv s" "at_cmd_ready s \<noteq> 0"
  shows "c_string (at_line_buf s) = take (unat (at_line_idx s)) (at_line_buf s)"
  using assms by (intro c_string_take) (auto simp: rx_inv_def)

lemma drained_line:
  assumes "rx_inv s" "at_cmd_ready s \<noteq> 0"
  shows "c_string (at_cmd_buf (drain_critical_section s))
           = take (unat (at_line_idx s)) (at_line_buf s)"
proof -
  let ?n = "unat (at_line_idx s)"
  let ?cb = "take (Suc ?n) (at_line_buf s) @ drop (Suc ?n) (at_cmd_buf s)"
  from assms have n: "?n < length (at_line_buf s)" and nz: "\<forall>i<?n. at_line_buf s ! i \<noteq> 0"
    and z: "at_line_buf s ! ?n = 0" and l: "length (at_cmd_buf s) = length (at_line_buf s)"
    by (auto simp: rx_inv_def)
  have "c_string ?cb = take ?n ?cb"
  proof (rule c_string_take)
    show "?n < length ?cb" using n l by simp
    show "\<forall>i<?n. ?cb ! i \<noteq> 0" using nz n by (simp add: nth_append)
    show "?cb ! ?n = 0" using z n by (simp add: nth_append)
  qed
  also have "\<dots> = take ?n (at_line_buf s)" using n by (simp add: min_def)
  finally show ?thesis by (simp add: drain_critical_section_def Let_def)
qed

lemma seq_ReceiveByte_ready:
  "at_cmd_ready s \<noteq> 0 \<Longrightarrow>
     at_cmd_ready (AT_Command_ReceiveByte b s) \<noteq> 0 \<and>
     seq_tasks_set (AT_Command_ReceiveByte b s) = seq_tasks_set s"
  by (simp add: AT_Command_ReceiveByte_def Let_def)

lemma seq_ReceiveByte_idle:
  "at_cmd_ready s = 0 \<Longrightarrow>
     (at_cmd_ready (AT_Command_ReceiveByte b s) = 0 \<and>
        seq_tasks_set (AT_Command_ReceiveByte b s) = seq_tasks_set s) \<or>
     (at_cmd_ready (AT_Command_ReceiveByte b s) \<noteq> 0 \<and>
        seq_tasks_set (AT_Command_ReceiveByte b s) = Suc (seq_tasks_set s))"
  by (simp add: AT_Command_ReceiveByte_def Let_def rx_timeout_check_def rx_terminator_def
      rx_printable_def rx_garbage_def)

lemma seq_fold:
  "seq_tasks_set (fold AT_Command_ReceiveByte bs s)
     \<le> seq_tasks_set s + (if at_cmd_ready s \<noteq> 0 then 0 else 1)"
proof (induction bs arbitrary: s)
  case Nil
  then show ?case by simp
next
  case (Cons b bs)
  show ?case
  proof (cases "at_cmd_ready s = 0")
    case True
    from True seq_ReceiveByte_idle [OF True, of b] Cons.IH [of "AT_Command_ReceiveByte b s"]
    show ?thesis by (auto split: if_splits)
  next
    case False
    from False seq_ReceiveByte_ready [OF False, of b] Cons.IH [of "AT_Command_ReceiveByte b s"]
    show ?thesis by (auto split: if_splits)
  qed
qed

text \<open>
  Claim C4: after any run of received bytes and drains from the initial state, if the ready
  flag is set then the line buffer holds a NUL-terminated line of length at least 2, the
  drain copies exactly that line and clears the flag; and in any further sequence of
  received bytes the flag is raised (and the task signalled) at most once, and not at all
  when it is already set.
\<close>

theorem C4_ready_line:
  assumes run: "sys_run steps (AT_Command_Init s0, w0) = (rx, w)"
  shows "(at_cmd_ready rx \<noteq> 0 \<longrightarrow>
            2 \<le> length (c_string (at_line_buf rx))
          \<and> length (c_string (at_line_buf rx)) < length (at_line_buf rx)
          \<and> at_line_buf rx ! length (c_string (at_line_buf rx)) = 0
          \<and> c_string (at_cmd_buf (fst (AT_Command_ProcessReady env (rx, w))))
              = c_string (at_line_buf rx)
          \<and> at_cmd_ready (fst (AT_Command_ProcessReady env (rx, w))) = 0)
       \<and> seq_tasks_set (fold AT_Command_ReceiveByte bs rx)
           \<le> seq_tasks_set rx + (if at_cmd_ready rx \<noteq> 0 then 0 else 1)"
proof -
  have inv: "rx_inv rx" using rx_inv_sys_run [of steps s0 w0] run by simp
  have "at_cmd_ready rx \<noteq> 0 \<longrightarrow>
            2 \<le> length (c_string (at_line_buf rx))
          \<and> length (c_string (at_line_buf rx)) < length (at_line_buf rx)
          \<and> at_line_buf rx ! length (c_string (at_line_buf rx)) = 0
          \<and> c_string (at_cmd_buf (fst (AT_Command_ProcessReady env (rx, w))))
              = c_string (at_line_buf rx)
          \<and> at_cmd_ready (fst (AT_Command_ProcessReady env (rx, w))) = 0"
  proof
    assume r: "at_cmd_ready rx \<noteq> 0"
    have line: "c_string (at_line_buf rx) = take (unat (at_line_idx rx)) (at_line_buf rx)"
      by (rule ready_line [OF inv r])
    from inv r have b: "2 \<le> unat (at_line_idx rx)"
      "unat (at_line_idx rx) < length (at_line_buf rx)"
      "at_line_buf rx ! unat (at_line_idx rx) = 0"
      by (auto simp: rx_inv_def)
    have len: "length (c_string (at_line_buf rx)) = unat (at_line_idx rx)"
      using line b by simp
    show "2 \<le> length (c_string (at_line_buf rx))
          \<and> length (c_string (at_line_buf rx)) < length (at_line_buf rx)
          \<and> at_line_buf rx ! length (c_string (at_line_buf rx)) = 0
          \<and> c_string (at_cmd_buf (fst (AT_Command_ProcessReady env (rx, w))))
              = c_string (at_line_buf rx)
          \<and> at_cmd_ready (fst (AT_Command_ProcessReady env (rx, w))) = 0"
      using r b len line drained_line [OF inv r]
      by (simp add: fst_ProcessReady drain_critical_section_def Let_def)
  qed
  then show ?thesis using seq_fold [of bs rx] by blast
qed


lemma run_AT:
  "sys_run [(env_two 0, Rx 0x41), (env_two 0, Rx 0x54), (env_two 0, Rx 0x0D)]
     (AT_Command_Init rx_reset, mode_reset) = (rx_after_AT, mode_reset)"
  by (simp add: sys_run_def AT_Command_ReceiveByte_def AT_Command_Init_def rx_reset_def
      rx_after_AT_def rx_timeout_check_def rx_terminator_def rx_printable_def rx_garbage_def
      ASCII_CR_def ASCII_LF_def ASCII_SPACE_def ASCII_TILDE_def AT_CMD_MAX_LEN_def
      AT_RX_TIMEOUT_MS_def Let_def)

theorem C4_ready_line_witness:
  "sys_run [(env_two 0, Rx 0x41), (env_two 0, Rx 0x54), (env_two 0, Rx 0x0D)]
     (AT_Command_Init rx_reset, mode_reset) = (rx_after_AT, mode_reset)
   \<and> at_cmd_ready rx_after_AT \<noteq> 0
   \<and> 2 \<le> length (c_string (at_line_buf rx_after_AT))
   \<and> c_string (at_cmd_buf (fst (AT_Command_ProcessReady (env_two 0) (rx_after_AT, mode_reset))))
       = c_string (at_line_buf rx_after_AT)
   \<and> seq_tasks_set (fold AT_Command_ReceiveByte [0x41, 0x0D] rx_after_AT) \<le> 1"
  using C4_ready_line [OF run_AT, of "env_two 0" "[0x41, 0x0D]"] run_AT
  by (simp add: rx_after_AT_def)

section \<open>Mode controller: flushing and entering command mode\<close>

lemma Flush_empty: "data_tx_len s = 0 \<Longrightarrow> Module_Mode_FlushTxBuffer env s = (0, s)"
  by (simp add: Module_Mode_FlushTxBuffer.simps)

lemma EnterCommand_in_command:
  "current_mode s = MODE_COMMAND \<Longrightarrow> Module_Mode_EnterCommand env s = (0, s)"
  by (simp add: Module_Mode_EnterCommand.simps)

lemma EnterCommand_empty:
  "current_mode s \<noteq> MODE_COMMAND \<Longrightarrow> data_tx_len s = 0 \<Longrightarrow>
     Module_Mode_EnterCommand env s =
       (0, AT_Response_Send (''+CMDMODE'' @ CRLF)
             (s\<lparr>current_mode := MODE_COMMAND, target_dev_idx := 0xFF,
                target_char_handle := 0, escape_count := 0, escape_detected := 0\<rparr>))"
  by (simp add: Module_Mode_EnterCommand.simps Flush_empty)

lemma Flush_disconnected:
  assumes "data_tx_len s \<noteq> 0" "current_mode s = MODE_DATA" "\<not> target_connected env s"
  shows "Module_Mode_FlushTxBuffer env s =
           (- 1, AT_Response_Send (''+CMDMODE'' @ CRLF)
                  (s\<lparr>data_tx_len := 0, current_mode := MODE_COMMAND, target_dev_idx := 0xFF,
                     target_char_handle := 0, escape_count := 0, escape_detected := 0\<rparr>))"
  using assms
  by (simp add: Module_Mode_FlushTxBuffer.simps [of env s] target_connected_def EnterCommand_empty
      split: option.splits)

lemma Flush_connected:
  assumes "data_tx_len s \<noteq> 0" "current_mode s = MODE_DATA"
    "BLE_DeviceManager_GetDevice env (unat (target_dev_idx s)) = Some dev" "is_connected dev"
  shows "Module_Mode_FlushTxBuffer env s =
           (if BLE_GATT_WriteCharacteristic env (conn_handle dev) (target_char_handle s)
                 (take (unat (data_tx_len s)) (data_tx_buffer s)) = 0 then 0 else - 1,
            s\<lparr>ext_calls := ext_calls s @
                 [GATT_Write (conn_handle dev) (target_char_handle s)
                    (take (unat (data_tx_len s)) (data_tx_buffer s))],
              data_tx_len := 0\<rparr>)"
  using assms
  by (simp add: Module_Mode_FlushTxBuffer.simps [of env s] Let_def)

lemma Flush_not_data:
  "data_tx_len s \<noteq> 0 \<Longrightarrow> current_mode s \<noteq> MODE_DATA \<Longrightarrow>
     Module_Mode_FlushTxBuffer env s = (0, s\<lparr>data_tx_len := 0\<rparr>)"
  by (simp add: Module_Mode_FlushTxBuffer.simps [of env s])

lemma Flush_len: "data_tx_len (snd (Module_Mode_FlushTxBuffer env s)) = 0"
proof (cases "data_tx_len s = 0")
  case True
  then show ?thesis by (simp add: Flush_empty)
next
  case nz: False
  show ?thesis
  proof (cases "current_mode s = MODE_DATA")
    case False
    with nz show ?thesis by (simp add: Flush_not_data)
  next
    case d: True
    show ?thesis
    proof (cases "target_connected env s")
      case False
      with nz d show ?thesis by (simp add: Flush_disconnected AT_Response_Send_def)
    next
      case True
      then obtain dev where "BLE_DeviceManager_GetDevice env (unat (target_dev_idx s)) = Some dev"
        "is_connected dev"
        by (auto simp: target_connected_def split: option.splits)
      with nz d show ?thesis by (simp add: Flush_connected)
    qed
  qed
qed


text \<open>
  Claim C3 (amended): whenever \<open>Module_Mode_FlushTxBuffer\<close> fails, the transmit buffer is
  cleared; when it fails because the target device is missing or no longer connected, the
  mode goes back to Command, the target index and handle and the escape state are reset,
  and \<open>+CMDMODE\<close> is sent; when it fails because the GATT write returns an error, the
  mode (Data), the target index, the target handle and the escape state stay as they were
  and nothing is sent.
\<close>

theorem C3_flush_failure:
  assumes fail: "fst (Module_Mode_FlushTxBuffer env s) \<noteq> 0"
  shows "data_tx_len (snd (Module_Mode_FlushTxBuffer env s)) = 0
       \<and> current_mode s = MODE_DATA
       \<and> (if target_connected env s
          then current_mode (snd (Module_Mode_FlushTxBuffer env s)) = MODE_DATA
             \<and> target_dev_idx (snd (Module_Mode_FlushTxBuffer env s)) = target_dev_idx s
             \<and> target_char_handle (snd (Module_Mode_FlushTxBuffer env s)) = target_char_handle s
             \<and> escape_count (snd (Module_Mode_FlushTxBuffer env s)) = escape_count s
             \<and> escape_detected (snd (Module_Mode_FlushTxBuffer env s)) = escape_detected s
             \<and> uart_tx (snd (Module_Mode_FlushTxBuffer env s)) = uart_tx s
          else current_mode (snd (Module_Mode_FlushTxBuffer env s)) = MODE_COMMAND
             \<and> target_dev_idx (snd (Module_Mode_FlushTxBuffer env s)) = 0xFF
             \<and> target_char_handle (snd (Module_Mode_FlushTxBuffer env s)) = 0
             \<and> escape_count (snd (Module_Mode_FlushTxBuffer env s)) = 0
             \<and> escape_detected (snd (Module_Mode_FlushTxBuffer env s)) = 0
             \<and> uart_tx (snd (Module_Mode_FlushTxBuffer env s)) = uart_tx s @ [''+CMDMODE'' @ CRLF])"
proof -
  from fail have nz: "data_tx_len s \<noteq> 0"
    by (auto simp: Flush_empty)
  have d: "current_mode s = MODE_DATA"
  proof (rule ccontr)
    assume "current_mode s \<noteq> MODE_DATA"
    with nz fail show False by (simp add: Flush_not_data)
  qed
  show ?thesis
  proof (cases "target_connected env s")
    case False
    with nz d show ?thesis
      by (simp add: Flush_disconnected Flush_len AT_Response_Send_def AT_CMD_MAX_LEN_def CRLF_def)
  next
    case True
    then obtain dev where "BLE_DeviceManager_GetDevice env (unat (target_dev_idx s)) = Some dev"
      "is_connected dev"
      by (auto simp: target_connected_def split: option.splits)
    with nz d True show ?thesis by (simp add: Flush_connected)
  qed
qed


lemma mode_data_example_eq:
  "mode_data_example =
     mode_reset\<lparr>current_mode := MODE_DATA, target_dev_idx := 0, target_char_handle := 18,
                uart_tx := [''+DATAMODE'' @ CRLF]\<rparr>"
  by (simp add: mode_data_example_def Module_Mode_EnterData_def env_two_def dev_A_def
      mode_reset_def AT_Response_Send_def AT_CMD_MAX_LEN_def CRLF_def)

lemma one_byte_fields:
  "data_tx_len (tx_append b mode_data_example) = 1"
  "current_mode (tx_append b mode_data_example) = MODE_DATA"
  "target_dev_idx (tx_append b mode_data_example) = 0"
  "uart_tx (tx_append b mode_data_example) = [''+DATAMODE'' @ CRLF]"
  "target_char_handle (tx_append b mode_data_example) = 18"
  by (simp_all add: tx_append_def mode_data_example_eq mode_reset_def)

text \<open>
  The claim as written fails on a write error: one byte buffered in Data mode towards a
  connected device, and a GATT write that reports an error.  The flush returns \<open>-1\<close>,
  clears the buffer, and the mode is still Data.
\<close>

theorem C3_write_error_counterexample:
  "fst (Module_Mode_FlushTxBuffer (env_write_fails 5) (tx_append 0x41 mode_data_example)) = - 1
   \<and> data_tx_len (snd (Module_Mode_FlushTxBuffer (env_write_fails 5)
                          (tx_append 0x41 mode_data_example))) = 0
   \<and> current_mode (snd (Module_Mode_FlushTxBuffer (env_write_fails 5)
                           (tx_append 0x41 mode_data_example))) = MODE_DATA
   \<and> target_char_handle (snd (Module_Mode_FlushTxBuffer (env_write_fails 5)
                           (tx_append 0x41 mode_data_example))) = 18"
proof -
  have dev: "BLE_DeviceManager_GetDevice (env_write_fails 5)
               (unat (target_dev_idx (tx_append 0x41 mode_data_example))) = Some dev_A"
    by (simp add: one_byte_fields env_write_fails_def env_two_def)
  have con: "is_connected dev_A" by (simp add: dev_A_def)
  show ?thesis
    unfolding Flush_connected [OF _ _ dev con, unfolded one_byte_fields, simplified]
    by (simp add: one_byte_fields env_write_fails_def)
qed

text \<open>The disconnect case at a concrete state: the same byte, the target not connected.\<close>

theorem C3_flush_failure_witness:
  "fst (Module_Mode_FlushTxBuffer (env_disconnected 5) (tx_append 0x41 mode_data_example)) \<noteq> 0
   \<and> \<not> target_connected (env_disconnected 5) (tx_append 0x41 mode_data_example)
   \<and> data_tx_len (snd (Module_Mode_FlushTxBuffer (env_disconnected 5)
                          (tx_append 0x41 mode_data_example))) = 0
   \<and> current_mode (snd (Module_Mode_FlushTxBuffer (env_disconnected 5)
                           (tx_append 0x41 mode_data_example))) = MODE_COMMAND
   \<and> target_dev_idx (snd (Module_Mode_FlushTxBuffer (env_disconnected 5)
                           (tx_append 0x41 mode_data_example))) = 0xFF
   \<and> target_char_handle (snd (Module_Mode_FlushTxBuffer (env_disconnected 5)
                           (tx_append 0x41 mode_data_example))) = 0
   \<and> uart_tx (snd (Module_Mode_FlushTxBuffer (env_disconnected 5)
                           (tx_append 0x41 mode_data_example)))
       = [''+DATAMODE'' @ CRLF, ''+CMDMODE'' @ CRLF]"
proof -
  have nc: "\<not> target_connected (env_disconnected 5) (tx_append 0x41 mode_data_example)"
    by (simp add: target_connected_def one_byte_fields env_disconnected_def dev_A_def)
  have fail: "fst (Module_Mode_FlushTxBuffer (env_disconnected 5)
                    (tx_append 0x41 mode_data_example)) \<noteq> 0"
    by (simp add: Flush_disconnected [OF _ _ nc] one_byte_fields)
  show ?thesis
    using C3_flush_failure [OF fail] nc fail by (simp add: one_byte_fields)
qed

section \<open>Entering command mode twice\<close>

lemma EnterCommand_mode:
  "current_mode (snd (Module_Mode_EnterCommand env s)) = MODE_COMMAND"
  by (simp add: Module_Mode_EnterCommand.simps [of env s] AT_Response_Send_def Let_def)

lemma rtrim_CRLF:
  "cmd \<noteq> [] \<Longrightarrow> \<not> is_trailing_ws (last cmd) \<Longrightarrow> rtrim (cmd @ CRLF) = cmd"
proof -
  assume a: "cmd \<noteq> []" "\<not> is_trailing_ws (last cmd)"
  have 1: "rtrim cmd = cmd" using a by (simp add: rtrim.simps [of cmd])
  have 2: "rtrim (cmd @ [CHR 0x0D]) = cmd"
    using 1 by (simp add: rtrim.simps [of "cmd @ [CHR 0x0D]"] is_trailing_ws_def)
  have "rtrim (cmd @ [CHR 0x0D, CHR 0x0A]) = rtrim (cmd @ [CHR 0x0D])"
    by (simp add: rtrim.simps [of "cmd @ [CHR 0x0D, CHR 0x0A]"] is_trailing_ws_def
        butlast_append)
  with 2 show ?thesis by (simp add: CRLF_def)
qed

lemma send_OK_eq: "send_OK s = s\<lparr>uart_tx := uart_tx s @ [''OK'' @ CRLF]\<rparr>"
  by (simp add: send_OK_def AT_Response_Send_def AT_CMD_MAX_LEN_def CRLF_def)


lemma dispatch_CMDMODE:
  "AT_dispatch env ''AT+CMDMODE'' w = snd (AT_CMDMODE_Handler env w)"
  by (simp add: AT_dispatch_def strcmp_eq_def strncmp_eq_def)

lemma Process_CMDMODE:
  "AT_Command_Process env (Some (''AT+CMDMODE'' @ CRLF)) w = snd (AT_CMDMODE_Handler env w)"
proof -
  have "take (AT_CMD_MAX_LEN - 1) (''AT+CMDMODE'' @ CRLF) = ''AT+CMDMODE'' @ CRLF"
    by (simp add: AT_CMD_MAX_LEN_def CRLF_def)
  moreover have "rtrim (''AT+CMDMODE'' @ CRLF) = ''AT+CMDMODE''"
    by (rule rtrim_CRLF) (simp_all add: is_trailing_ws_def)
  ultimately show ?thesis
    by (simp add: AT_Command_Process_def dispatch_CMDMODE c_at_def CRLF_def)
qed

text \<open>
  Claim C9: in Command mode \<open>Module_Mode_EnterCommand\<close> returns 0 and changes nothing (no
  flush, no mode variable, no \<open>+CMDMODE\<close>), so \<open>AT+CMDMODE\<close> in Command mode sends only
  \<open>OK\<close>; and a second call after any first call changes nothing.
\<close>

theorem C9_EnterCommand_idempotent:
  "(current_mode s = MODE_COMMAND \<longrightarrow>
       Module_Mode_EnterCommand env s = (0, s)
     \<and> AT_CMDMODE_Handler env s = (0, s\<lparr>uart_tx := uart_tx s @ [''OK'' @ CRLF]\<rparr>)
     \<and> AT_Command_Process env (Some (''AT+CMDMODE'' @ CRLF)) s
         = s\<lparr>uart_tx := uart_tx s @ [''OK'' @ CRLF]\<rparr>)
   \<and> Module_Mode_EnterCommand env' (snd (Module_Mode_EnterCommand env s))
       = (0, snd (Module_Mode_EnterCommand env s))"
proof -
  have "Module_Mode_EnterCommand env' (snd (Module_Mode_EnterCommand env s))
          = (0, snd (Module_Mode_EnterCommand env s))"
    by (rule EnterCommand_in_command) (rule EnterCommand_mode)
  moreover have "current_mode s = MODE_COMMAND \<longrightarrow>
       Module_Mode_EnterCommand env s = (0, s)
     \<and> AT_CMDMODE_Handler env s = (0, s\<lparr>uart_tx := uart_tx s @ [''OK'' @ CRLF]\<rparr>)
     \<and> AT_Command_Process env (Some (''AT+CMDMODE'' @ CRLF)) s
         = s\<lparr>uart_tx := uart_tx s @ [''OK'' @ CRLF]\<rparr>"
    by (simp add: Process_CMDMODE [simplified] AT_CMDMODE_Handler_def EnterCommand_in_command
        send_OK_eq [simplified])
  ultimately show ?thesis by blast
qed

theorem C9_EnterCommand_idempotent_witness:
  "current_mode mode_reset = MODE_COMMAND
   \<and> Module_Mode_EnterCommand (env_two 0) mode_reset = (0, mode_reset)
   \<and> uart_tx (AT_Command_Process (env_two 0) (Some (''AT+CMDMODE'' @ CRLF)) mode_reset)
       = [''OK'' @ CRLF]"
  using C9_EnterCommand_idempotent [of mode_reset "env_two 0" "env_two 0"]
  by (simp add: mode_reset_def)

section \<open>Bound on the transmit length\<close>







lemma add_buffered_plus_full:
  "\<not> unat (data_tx_len s) < DATA_TX_BUFFER_SIZE \<Longrightarrow> add_buffered_plus n s = s"
  by (cases n) simp_all

























section \<open>Escape run followed by a byte\<close>

text \<open>
  Claim C1 (the code departs from it): in Data mode, after a guard time of silence, the
  bytes \<open>+ + + x\<close> in direct succession.  The controller stays in Data mode and a poll at
  once reports nothing, but \<open>escape_detected\<close> is never cleared by the fourth byte: a poll
  one guard time after \<open>x\<close> reports a valid escape.  The first two \<open>+\<close> reach the
  payload (one already written to the characteristic, one buffered), the third is
  dropped: the payload is \<open>+ + x\<close>, with two \<open>+\<close> instead of three.
\<close>

theorem C1_escape_then_byte:
  "current_mode escape_then_byte = MODE_DATA
   \<and> escape_detected escape_then_byte = 1
   \<and> fst (Module_Mode_IsEscapeDetected (env_two 1003) escape_then_byte) = 0
   \<and> fst (Module_Mode_IsEscapeDetected (env_two 2003) escape_then_byte) = 1
   \<and> tx_payload escape_then_byte = [0x2B, 0x2B, 0x78]
   \<and> count_list (tx_payload escape_then_byte) ESCAPE_SEQ_CHAR = 2"
  by code_simp

section \<open>Dispatch of \<open>AT+LIST\<close>\<close>

lemma rtrim_Nil: "rtrim [] = []"
  by (simp add: rtrim.simps)

lemma lowercase_list_ignored:
  "AT_Command_Process env (Some (''at+list'' @ CRLF)) w = w"
proof -
  have "take (AT_CMD_MAX_LEN - 1) (''at+list'' @ CRLF) = ''at+list'' @ CRLF"
    by (simp add: AT_CMD_MAX_LEN_def CRLF_def)
  moreover have "rtrim (''at+list'' @ CRLF) = ''at+list''"
    by (rule rtrim_CRLF) (simp_all add: is_trailing_ws_def)
  moreover have "AT_dispatch env ''at+list'' w = w"
    by (simp add: AT_dispatch_def strcmp_eq_def strncmp_eq_def)
  ultimately show ?thesis
    by (simp add: AT_Command_Process_def c_at_def CRLF_def)
qed

lemma uppercase_list_two_devices:
  "uart_tx (AT_Command_Process (env_two 0) (Some (''AT+LIST'' @ CRLF)) mode_reset)
     = [''+LIST:2'' @ CRLF,
        ''+DEV:0,11:22:33:44:55:66,-60,0x0801,Sensor'' @ CRLF,
        ''+DEV:1,AA:BB:CC:DD:EE:FF,-75,0x0802,Unknown'' @ CRLF,
        ''OK'' @ CRLF]"
  by code_simp

text \<open>
  Claim C2 (the code departs from it): the prefix test lets \<open>at+list\<close> through, but every
  comparison of the dispatcher is case-sensitive, so the line reaches the final \<open>else\<close>:
  nothing is sent and nothing changes, whatever the device manager holds.  The same line
  in upper case, with two known devices, gives the four response lines of the claim.
\<close>

theorem C2_lowercase_list:
  "AT_Command_Process env (Some (''at+list'' @ CRLF)) w = w
   \<and> BLE_DeviceManager_GetCount (env_two 0) = 2
   \<and> uart_tx (AT_Command_Process (env_two 0) (Some (''at+list'' @ CRLF)) mode_reset) = []
   \<and> uart_tx (AT_Command_Process (env_two 0) (Some (''AT+LIST'' @ CRLF)) mode_reset)
       = [''+LIST:2'' @ CRLF,
          ''+DEV:0,11:22:33:44:55:66,-60,0x0801,Sensor'' @ CRLF,
          ''+DEV:1,AA:BB:CC:DD:EE:FF,-75,0x0802,Unknown'' @ CRLF,
          ''OK'' @ CRLF]"
proof -
  have "uart_tx (AT_Command_Process (env_two 0) (Some (''at+list'' @ CRLF)) mode_reset) = []"
    by (simp only: lowercase_list_ignored) (simp add: mode_reset_def)
  moreover have "BLE_DeviceManager_GetCount (env_two 0) = 2"
    by (simp add: env_two_def)
  ultimately show ?thesis
    using lowercase_list_ignored [of env w] uppercase_list_two_devices by blast
qed

section \<open>Handle fields that parse to zero\<close>









lemma Process_dispatch:
  assumes "rtrim (take (AT_CMD_MAX_LEN - 1) line) = CHR ''A'' # CHR ''T'' # r"
  shows "AT_Command_Process env (Some line) w = AT_dispatch env (CHR ''A'' # CHR ''T'' # r) w"
proof -
  have "line \<noteq> []" using assms by (auto simp: rtrim_Nil)
  then show ?thesis using assms by (simp add: AT_Command_Process_def c_at_def)
qed






lemma rtrim_take_CRLF:
  assumes "cmd \<noteq> []" "\<not> is_trailing_ws (last cmd)" "length cmd \<le> 125"
  shows "rtrim (take (AT_CMD_MAX_LEN - 1) (cmd @ CRLF)) = cmd"
proof -
  have "take (AT_CMD_MAX_LEN - 1) (cmd @ CRLF) = cmd @ CRLF"
    using assms(3) by (simp add: AT_CMD_MAX_LEN_def CRLF_def)
  then show ?thesis using rtrim_CRLF [OF assms(1,2)] by simp
qed





section \<open>Hex payloads\<close>

lemma nat_nibbles_or: "(l :: nat) < 16 \<Longrightarrow> push_bit 4 h OR l = 16 * h + l"
proof -
  assume l: "l < 16"
  then have tl: "take_bit 4 l = l" by (simp add: take_bit_nat_eq_self)
  have "push_bit 4 h AND take_bit 4 l = 0"
    by (rule bit_eqI) (simp add: bit_simps)
  then have "push_bit 4 h + take_bit 4 l = push_bit 4 h OR take_bit 4 l"
    by (rule disjunctive_add_eq_or)
  with tl show ?thesis by (simp add: push_bit_eq_mult)
qed

lemma unat_nibbles_or:
  assumes "unat (h :: uint8_t) < 16" "unat (l :: uint8_t) < 16"
  shows "unat (push_bit 4 h OR l) = 16 * unat h + unat l"
proof -
  have "unat (push_bit 4 h) = take_bit 8 (push_bit 4 (unat h))"
    by (simp add: unsigned_push_bit_eq)
  also have "\<dots> = push_bit 4 (unat h)"
    using assms(1) by (simp add: take_bit_nat_eq_self push_bit_eq_mult)
  finally have "unat (push_bit 4 h OR l) = push_bit 4 (unat h) OR unat l"
    by (simp add: unsigned_or_eq)
  then show ?thesis using nat_nibbles_or [OF assms(2)] by simp
qed

lemma unat_u8_less: "unat (b :: uint8_t) < 256"
  using unsigned_less [of b] by simp

lemma byte_from_nibbles: "push_bit 4 (of_nat (unat b div 16)) OR of_nat (unat b mod 16) = (b :: uint8_t)"
proof -
  have b: "unat b < 256" by (rule unat_u8_less)
  have h: "unat (of_nat (unat b div 16) :: uint8_t) = unat b div 16"
    using b by (simp add: unat_of_nat)
  have l: "unat (of_nat (unat b mod 16) :: uint8_t) = unat b mod 16"
    by (simp add: unat_of_nat)
  have "unat (push_bit 4 (of_nat (unat b div 16)) OR of_nat (unat b mod 16) :: uint8_t)
          = 16 * (unat b div 16) + unat b mod 16"
    using unat_nibbles_or [of "of_nat (unat b div 16)" "of_nat (unat b mod 16)"] b
    by (simp only: h l)
  then show ?thesis by (simp add: word_unat_eq_iff)
qed

lemma upt_16: "[0..<16] = [0, 1, 2, 3, 4, 5, 6, 7, 8, 9, 10, 11, 12, 13, 14, 15 :: nat]"
  by code_simp

lemma less_16_cases:
  assumes "(v :: nat) < 16"
  shows "v \<in> {0, 1, 2, 3, 4, 5, 6, 7, 8, 9, 10, 11, 12, 13, 14, 15}"
proof -
  from assms have "v \<in> set [0..<16]" by simp
  then show ?thesis unfolding upt_16 by simp
qed

lemma hex_digit_nibble:
  "v < 16 \<Longrightarrow> ParseHexNibble (hex_digit v) = of_nat v"
  by (drule less_16_cases) (auto simp: hex_digit_def ParseHexNibble_def char_code_def)


lemma hex_val_less: "is_hex_char c \<Longrightarrow> hex_val c < 16"
  by (auto simp: is_hex_char_def hex_val_def char_code_def)

lemma ParseHexNibble_hex: "is_hex_char c \<Longrightarrow> ParseHexNibble c = of_nat (hex_val c)"
  by (auto simp: is_hex_char_def hex_val_def ParseHexNibble_def char_code_def)

lemma ParseHexNibble_not_hex: "\<not> is_hex_char c \<Longrightarrow> ParseHexNibble c = 0xFF"
  by (auto simp: is_hex_char_def ParseHexNibble_def char_code_def)

lemma unat_of_nat_nibble: "v < 16 \<Longrightarrow> unat (of_nat v :: uint8_t) = v"
  by (simp add: unat_of_nat)

lemma ParseHexNibble_hex_ne: "is_hex_char c \<Longrightarrow> ParseHexNibble c \<noteq> 0xFF"
proof
  assume h: "is_hex_char c" and e: "ParseHexNibble c = 0xFF"
  from h have "unat (ParseHexNibble c) < 16"
    by (simp add: ParseHexNibble_hex unat_of_nat_nibble hex_val_less)
  with e show False by simp
qed

lemma nibbles_byte:
  assumes "a < 16" "b < 16"
  shows "push_bit 4 (of_nat a) OR of_nat b = (of_nat (16 * a + b) :: uint8_t)"
proof -
  have "unat (push_bit 4 (of_nat a) OR of_nat b :: uint8_t) = 16 * a + b"
    using unat_nibbles_or [of "of_nat a" "of_nat b"] assms by (simp add: unat_of_nat_nibble)
  moreover have "unat (of_nat (16 * a + b) :: uint8_t) = 16 * a + b"
  proof -
    have "16 * a + b < 256" using assms by simp
    then show ?thesis by (simp only: unat_of_nat) simp
  qed
  ultimately show ?thesis by (simp add: word_unat_eq_iff)
qed

lemma ParseHexString_loop_ok:
  assumes "even (length s)" "list_all is_hex_char s" "i + length s div 2 \<le> max_len"
    "i + length s div 2 \<le> length out"
  shows "ParseHexString_loop s out i max_len =
           (int (i + length s div 2), take i out @ hex_pairs s @ drop (i + length s div 2) out)"
  using assms
proof (induction s out i max_len rule: ParseHexString_loop.induct)
  case (1 c0 c1 rest out i max_len)
  let ?b = "push_bit 4 (ParseHexNibble c0) OR ParseHexNibble c1"
  from "1.prems" have h: "is_hex_char c0" "is_hex_char c1" and r: "list_all is_hex_char rest"
    and ev: "even (length rest)" and i: "i < max_len" "i < length out"
    and b1: "Suc i + length rest div 2 \<le> max_len" and b2: "Suc i + length rest div 2 \<le> length out"
    by simp_all
  have ne: "ParseHexNibble c0 \<noteq> 0xFF" "ParseHexNibble c1 \<noteq> 0xFF"
    using h by (simp_all add: ParseHexNibble_hex_ne)
  have byte: "?b = of_nat (16 * hex_val c0 + hex_val c1)"
    using h by (simp add: ParseHexNibble_hex nibbles_byte hex_val_less)
  have IH: "ParseHexString_loop rest (out[i := ?b]) (i + 1) max_len =
              (int (i + 1 + length rest div 2),
               take (i + 1) (out[i := ?b]) @ hex_pairs rest @
               drop (i + 1 + length rest div 2) (out[i := ?b]))"
    using "1.IH" [OF i(1) refl refl _ ev r] ne b1 b2 by simp
  have t: "take (i + 1) (out[i := ?b]) = take i out @ [?b]"
    using i(2) by (simp add: take_Suc_conv_app_nth)
  have d: "drop (i + 1 + length rest div 2) (out[i := ?b]) = drop (i + 1 + length rest div 2) out"
    by simp
  show ?case using i ne IH t d byte by (simp add: Let_def)
next
  case (2 c0 out i max_len)
  then show ?case by simp
next
  case (3 out i max_len)
  then show ?case by simp
qed

lemma ParseHexString_loop_bad:
  assumes "even (length s)" "\<not> list_all is_hex_char s" "i + length s div 2 \<le> max_len"
  shows "fst (ParseHexString_loop s out i max_len) = - 1"
  using assms
proof (induction s out i max_len rule: ParseHexString_loop.induct)
  case (1 c0 c1 rest out i max_len)
  show ?case
  proof (cases "is_hex_char c0 \<and> is_hex_char c1")
    case False
    then have "ParseHexNibble c0 = 0xFF \<or> ParseHexNibble c1 = 0xFF"
      using ParseHexNibble_not_hex by blast
    with "1.prems" show ?thesis by (auto simp: Let_def)
  next
    case True
    then have ne: "ParseHexNibble c0 \<noteq> 0xFF" "ParseHexNibble c1 \<noteq> 0xFF"
      by (simp_all add: ParseHexNibble_hex_ne)
    from True "1.prems" have "\<not> list_all is_hex_char rest" "even (length rest)"
      "i < max_len" "i + 1 + length rest div 2 \<le> max_len" by simp_all
    with "1.IH" [OF _ refl refl] ne show ?thesis by (simp add: Let_def)
  qed
next
  case (2 c0 out i max_len)
  then show ?case by simp
next
  case (3 out i max_len)
  then show ?case by simp
qed

lemma hex_code_ranges:
  "[48..<58] = [48, 49, 50, 51, 52, 53, 54, 55, 56, 57 :: nat]"
  "[65..<71] = [65, 66, 67, 68, 69, 70 :: nat]"
  "[97..<103] = [97, 98, 99, 100, 101, 102 :: nat]"
  by code_simp+

lemma hex_char_cases:
  assumes "is_hex_char c"
  shows "c \<in> set ''0123456789ABCDEFabcdef''"
proof -
  let ?n = "of_char c :: nat"
  from assms have "?n \<in> {48..<58} \<union> {65..<71} \<union> {97..<103}"
    by (auto simp: is_hex_char_def char_code_def)
  then have "?n \<in> set [48..<58] \<union> set [65..<71] \<union> set [97..<103]"
    by (simp only: atLeastLessThan_upt)
  then have "?n \<in> set (map of_char ''0123456789ABCDEFabcdef'')"
    unfolding hex_code_ranges by auto
  then have "?n \<in> of_char ` set ''0123456789ABCDEFabcdef''"
    by (simp only: set_map)
  then obtain d where "d \<in> set ''0123456789ABCDEFabcdef''" "?n = of_char d" by blast
  then show ?thesis by simp
qed

lemma hex_digit_hex_val: "is_hex_char c \<Longrightarrow> hex_digit (hex_val c) = hex_upper c"
proof -
  assume "is_hex_char c"
  then have "c \<in> set ''0123456789ABCDEFabcdef''" by (rule hex_char_cases)
  then show ?thesis
    apply (simp only: list.set insert_iff empty_iff)
    apply (elim disjE)
    apply (simp_all add: hex_digit_def hex_val_def hex_upper_def char_code_def)
    done
qed

lemma hex_val_hex_digit: "hex_val (hex_digit v) = v mod 16"
proof -
  have "v mod 16 < 16" by simp
  from less_16_cases [OF this] show ?thesis
    by (auto simp: hex_digit_def hex_val_def char_code_def)
qed

lemma hex_val_hex_digit_lower: "hex_val (hex_digit_lower v) = v mod 16"
proof -
  have "v mod 16 < 16" by simp
  from less_16_cases [OF this] show ?thesis
    by (auto simp: hex_digit_lower_def hex_val_def char_code_def)
qed

lemma is_hex_hex_digit: "is_hex_char (hex_digit v)"
proof -
  have "v mod 16 < 16" by simp
  from less_16_cases [OF this] show ?thesis
    by (auto simp: hex_digit_def is_hex_char_def char_code_def)
qed

lemma is_hex_hex_digit_lower: "is_hex_char (hex_digit_lower v)"
proof -
  have "v mod 16 < 16" by simp
  from less_16_cases [OF this] show ?thesis
    by (auto simp: hex_digit_lower_def is_hex_char_def char_code_def)
qed

lemma byte_div_mod: "of_nat (16 * (unat b div 16 mod 16) + unat b mod 16) = (b :: uint8_t)"
proof -
  have "unat b div 16 < 16" using unat_u8_less [of b] by simp
  then have "16 * (unat b div 16 mod 16) + unat b mod 16 = unat b" by simp
  then show ?thesis by (simp only: of_nat_unat) simp
qed

lemma hex_pairs_encode: "hex_pairs (hex_encode bs) = bs"
  by (induction bs)
     (simp_all add: hex_encode_def fmt_02X_def hex_val_hex_digit byte_div_mod
        del: of_nat_add of_nat_mult)

lemma hex_pairs_encode_lower: "hex_pairs (hex_encode_lower bs) = bs"
  by (induction bs)
     (simp_all add: hex_encode_lower_def hex_val_hex_digit_lower byte_div_mod
        del: of_nat_add of_nat_mult)

lemma hex_encode_shape:
  "even (length (hex_encode bs)) \<and> length (hex_encode bs) div 2 = length bs
   \<and> list_all is_hex_char (hex_encode bs)"
  by (induction bs) (simp_all add: hex_encode_def fmt_02X_def is_hex_hex_digit)

lemma hex_encode_lower_shape:
  "even (length (hex_encode_lower bs)) \<and> length (hex_encode_lower bs) div 2 = length bs
   \<and> list_all is_hex_char (hex_encode_lower bs)"
  by (induction bs) (simp_all add: hex_encode_lower_def is_hex_hex_digit_lower)

lemma fmt_02X_pair:
  assumes "is_hex_char c0" "is_hex_char c1"
  shows "fmt_02X (of_nat (16 * hex_val c0 + hex_val c1)) = [hex_upper c0, hex_upper c1]"
proof -
  have a: "hex_val c0 < 16" "hex_val c1 < 16" using assms by (simp_all add: hex_val_less)
  then have "16 * hex_val c0 + hex_val c1 < 256" by simp
  then have u: "unat (of_nat (16 * hex_val c0 + hex_val c1) :: uint8_t)
                  = 16 * hex_val c0 + hex_val c1"
    by (simp only: unat_of_nat) simp
  have "hex_digit ((16 * hex_val c0 + hex_val c1) div 16) = hex_upper c0"
    using a assms by (simp add: hex_digit_hex_val)
  moreover have "hex_digit (16 * hex_val c0 + hex_val c1) = hex_digit (hex_val c1)"
    by (simp add: hex_digit_def)
  ultimately show ?thesis
    using assms by (simp only: fmt_02X_def u) (simp add: hex_digit_hex_val)
qed

lemma hex_encode_pairs:
  "even (length s) \<Longrightarrow> list_all is_hex_char s \<Longrightarrow> hex_encode (hex_pairs s) = map hex_upper s"
proof (induction s rule: hex_pairs.induct)
  case (1 c0 c1 rest)
  then have "hex_encode (hex_pairs rest) = map hex_upper rest" by simp
  moreover have "fmt_02X (of_nat (16 * hex_val c0 + hex_val c1)) = [hex_upper c0, hex_upper c1]"
    using 1 by (simp add: fmt_02X_pair del: of_nat_add of_nat_mult)
  ultimately show ?case by (simp add: hex_encode_def del: of_nat_add of_nat_mult)
qed (simp_all add: hex_encode_def)

lemma length_hex_pairs: "length (hex_pairs s) = length s div 2"
  by (induction s rule: hex_pairs.induct) simp_all


lemma ParseHexString_decode:
  "(even (length s) \<and> list_all is_hex_char s \<and> length s div 2 \<le> unat max_len
      \<and> 0 < max_len \<and> unat max_len \<le> length out \<longrightarrow>
        fst (ParseHexString (Some s) out max_len) = int (length s div 2)
      \<and> take (length s div 2) (snd (ParseHexString (Some s) out max_len)) = hex_pairs s)
   \<and> (odd (length s) \<or> \<not> list_all is_hex_char s \<longrightarrow>
        fst (ParseHexString (Some s) out max_len) = - 1)
   \<and> (max_len = 0 \<or> unat max_len < length s div 2 \<longrightarrow>
        fst (ParseHexString (Some s) out max_len) = - 1)"
proof -
  have A: "even (length s) \<and> list_all is_hex_char s \<and> length s div 2 \<le> unat max_len
      \<and> 0 < max_len \<and> unat max_len \<le> length out \<longrightarrow>
        fst (ParseHexString (Some s) out max_len) = int (length s div 2)
      \<and> take (length s div 2) (snd (ParseHexString (Some s) out max_len)) = hex_pairs s"
  proof (intro impI, elim conjE)
    assume e: "even (length s)" and h: "list_all is_hex_char s"
      and l: "length s div 2 \<le> unat max_len" and p: "0 < max_len"
      and o: "unat max_len \<le> length out"
    from l o have b: "0 + length s div 2 \<le> unat max_len" "0 + length s div 2 \<le> length out"
      by simp_all
    have nz: "max_len \<noteq> 0" using p by simp
    have "ParseHexString (Some s) out max_len = ParseHexString_loop s out 0 (unat max_len)"
      using e l nz by (simp add: ParseHexString_def)
    with ParseHexString_loop_ok [OF e h b]
    show "fst (ParseHexString (Some s) out max_len) = int (length s div 2)
      \<and> take (length s div 2) (snd (ParseHexString (Some s) out max_len)) = hex_pairs s"
      by (simp add: length_hex_pairs)
  qed
  have C: "odd (length s) \<or> \<not> list_all is_hex_char s \<longrightarrow>
        fst (ParseHexString (Some s) out max_len) = - 1"
  proof
    assume bad: "odd (length s) \<or> \<not> list_all is_hex_char s"
    show "fst (ParseHexString (Some s) out max_len) = - 1"
    proof (cases "max_len = 0 \<or> odd (length s) \<or> length s div 2 > unat max_len")
      case True
      then show ?thesis by (auto simp: ParseHexString_def odd_iff_mod_2_eq_one)
    next
      case False
      with bad have nh: "\<not> list_all is_hex_char s" and ev: "even (length s)"
        and b: "0 + length s div 2 \<le> unat max_len" by auto
      from False have "ParseHexString (Some s) out max_len
                         = ParseHexString_loop s out 0 (unat max_len)"
        by (auto simp: ParseHexString_def)
      with ParseHexString_loop_bad [OF ev nh b] show ?thesis by simp
    qed
  qed
  have D: "max_len = 0 \<or> unat max_len < length s div 2 \<longrightarrow>
        fst (ParseHexString (Some s) out max_len) = - 1"
    by (auto simp: ParseHexString_def)
  from A C D show ?thesis by blast
qed

text \<open>
  The only caller of \<open>ParseHexString\<close> is \<open>AT_WRITE_Handler\<close>, with the 64-byte
  \<open>write_buf\<close>, on the text after the second comma of an \<open>AT+WRITE=\<close> command.  The
  command is at most 127 characters long, so the payload has at most 116.
\<close>

lemma length_rtrim: "length (rtrim cmd) \<le> length cmd"
proof (induction cmd rule: rtrim.induct)
  case (1 cmd)
  show ?case
  proof (cases "cmd \<noteq> [] \<and> is_trailing_ws (last cmd)")
    case True
    then have "rtrim cmd = rtrim (butlast cmd)" by (subst rtrim.simps) simp
    moreover have "length (rtrim (butlast cmd)) \<le> length (butlast cmd)"
      using 1 True by simp
    ultimately show ?thesis by simp
  next
    case False
    then have "rtrim cmd = cmd" by (subst rtrim.simps) auto
    then show ?thesis by simp
  qed
qed

lemma SkipToComma_loop_shorter: "SkipToComma_loop s = Some r \<Longrightarrow> length r < length s"
  by (induction s) (auto split: if_splits)

lemma SkipToComma_shorter: "SkipToComma p = Some r \<Longrightarrow> \<exists>s. p = Some s \<and> length r < length s"
  by (cases p) (auto simp: SkipToComma_def dest: SkipToComma_loop_shorter)

lemma write_payload_length:
  assumes c: "rtrim (take (AT_CMD_MAX_LEN - 1) line) = ''AT+WRITE='' @ rest"
    and d: "SkipToComma (SkipToComma (Some rest)) = Some d"
  shows "length d \<le> 116"
proof -
  have "length (rtrim (take (AT_CMD_MAX_LEN - 1) line)) \<le> 127"
    using length_rtrim [of "take (AT_CMD_MAX_LEN - 1) line"] by (simp add: AT_CMD_MAX_LEN_def)
  with c have r: "length rest \<le> 118" by simp
  from SkipToComma_shorter [OF d] obtain p where p: "SkipToComma (Some rest) = Some p"
    and dp: "length d < length p" by blast
  from SkipToComma_shorter [OF p] have "length p < length rest" by auto
  with dp r show ?thesis by simp
qed

lemma dispatch_WRITE:
  assumes d: "SkipToComma (SkipToComma (Some rest)) = Some d"
  shows "AT_dispatch env (''AT+WRITE='' @ rest) w =
           (if ParseUInt8 (Some rest) \<noteq> 0xFF \<and> ParseUInt16 (SkipToComma (Some rest)) > 0 \<and> d \<noteq> []
            then snd (AT_WRITE_Handler env (ParseUInt8 (Some rest))
                        (ParseUInt16 (SkipToComma (Some rest))) (Some d) w)
            else send_ERROR w)"
proof -
  from SkipToComma_shorter [OF d] have p: "SkipToComma (Some rest) \<noteq> None" by auto
  show ?thesis using d p
    by (simp add: AT_dispatch_def strcmp_eq_def strncmp_eq_def Let_def)
qed

lemma WRITE_Handler_hex:
  assumes g: "BLE_DeviceManager_GetDevice env (unat idx) = Some dev" and c: "is_connected dev"
    and n: "d \<noteq> []" and e: "even (length d)" and h: "list_all is_hex_char d"
    and l: "length d \<le> 116"
  shows "ext_calls (snd (AT_WRITE_Handler env idx handle (Some d) w))
           = ext_calls w @ [GATT_Write (conn_handle dev) handle (hex_pairs d)]"
proof -
  have pre: "even (length d) \<and> list_all is_hex_char d
      \<and> length d div 2 \<le> unat AT_WRITE_MAX_DATA_LEN \<and> 0 < AT_WRITE_MAX_DATA_LEN
      \<and> unat AT_WRITE_MAX_DATA_LEN \<le> length (replicate (unat AT_WRITE_MAX_DATA_LEN) (0 :: uint8_t))"
    using e h l by (simp add: AT_WRITE_MAX_DATA_LEN_def)
  note r = ParseHexString_decode [of d AT_WRITE_MAX_DATA_LEN
      "replicate (unat AT_WRITE_MAX_DATA_LEN) 0", THEN conjunct1, THEN mp, OF pre]
  from n e have pos: "0 < length d div 2" by (cases d) auto
  obtain k buf where kb: "ParseHexString (Some d) (replicate (unat AT_WRITE_MAX_DATA_LEN) 0)
      AT_WRITE_MAX_DATA_LEN = (k, buf)" by (cases "ParseHexString (Some d)
      (replicate (unat AT_WRITE_MAX_DATA_LEN) 0) AT_WRITE_MAX_DATA_LEN")
  from r kb have k: "k = int (length d div 2)" and b: "take (length d div 2) buf = hex_pairs d"
    by simp_all
  show ?thesis
    using g c n kb pos b
    by (simp add: AT_WRITE_Handler_def Let_def k log_call_def send_OK_def send_ERROR_def
        AT_Response_Send_def)
qed

lemma WRITE_Handler_bad_hex:
  assumes g: "BLE_DeviceManager_GetDevice env (unat idx) = Some dev" and c: "is_connected dev"
    and n: "d \<noteq> []" and bad: "odd (length d) \<or> \<not> list_all is_hex_char d"
  shows "snd (AT_WRITE_Handler env idx handle (Some d) w)
           = AT_Response_Send (''+ERROR:INVALID_HEX'' @ CRLF) w"
proof -
  note r = ParseHexString_decode [of d AT_WRITE_MAX_DATA_LEN
      "replicate (unat AT_WRITE_MAX_DATA_LEN) 0", THEN conjunct2, THEN conjunct1, THEN mp, OF bad]
  obtain k buf where kb: "ParseHexString (Some d) (replicate (unat AT_WRITE_MAX_DATA_LEN) 0)
      AT_WRITE_MAX_DATA_LEN = (k, buf)" by (cases "ParseHexString (Some d)
      (replicate (unat AT_WRITE_MAX_DATA_LEN) 0) AT_WRITE_MAX_DATA_LEN")
  from r kb have k: "k = - 1" by simp
  show ?thesis using g c n kb by (simp add: AT_WRITE_Handler_def Let_def k)
qed

text \<open>
  Claim C7: let \<open>d\<close> be the hex payload of an \<open>AT+WRITE=\<close> command, that is the text after
  the second comma of the trimmed 127-character command buffer; this is the string the
  dispatcher hands to \<open>AT_WRITE_Handler\<close>, which decodes it with \<open>ParseHexString\<close> into its
  64-byte buffer.  The byte count of \<open>d\<close> always fits that buffer.  If \<open>d\<close> has even length
  and is over \<open>[0-9A-Fa-f]\<close>, \<open>ParseHexString\<close> returns the number of bytes and stores the
  byte sequence whose hex encoding is \<open>d\<close> in upper case, and these bytes are what the
  handler writes to the characteristic; if \<open>d\<close> is the hex encoding of a byte sequence, in
  either case, decoding gives the sequence back.  If \<open>d\<close> has odd length or a character
  outside the alphabet, \<open>ParseHexString\<close> returns \<open>-1\<close> and the handler answers
  \<open>+ERROR:INVALID_HEX\<close> without a GATT call.
\<close>

theorem C7_hex_decode:
  assumes cmd: "rtrim (take (AT_CMD_MAX_LEN - 1) line) = ''AT+WRITE='' @ rest"
    and payload: "SkipToComma (SkipToComma (Some rest)) = Some d"
  shows "length d div 2 \<le> unat AT_WRITE_MAX_DATA_LEN
   \<and> AT_Command_Process env (Some line) w =
       (if ParseUInt8 (Some rest) \<noteq> 0xFF \<and> ParseUInt16 (SkipToComma (Some rest)) > 0 \<and> d \<noteq> []
        then snd (AT_WRITE_Handler env (ParseUInt8 (Some rest))
                    (ParseUInt16 (SkipToComma (Some rest))) (Some d) w)
        else send_ERROR w)
   \<and> (even (length d) \<and> list_all is_hex_char d \<longrightarrow>
        fst (ParseHexString (Some d) (replicate (unat AT_WRITE_MAX_DATA_LEN) 0)
               AT_WRITE_MAX_DATA_LEN) = int (length d div 2)
      \<and> hex_encode (take (length d div 2)
          (snd (ParseHexString (Some d) (replicate (unat AT_WRITE_MAX_DATA_LEN) 0)
                  AT_WRITE_MAX_DATA_LEN))) = map hex_upper d)
   \<and> (d = hex_encode bs \<or> d = hex_encode_lower bs \<longrightarrow>
        fst (ParseHexString (Some d) (replicate (unat AT_WRITE_MAX_DATA_LEN) 0)
               AT_WRITE_MAX_DATA_LEN) = int (length bs)
      \<and> take (length bs)
          (snd (ParseHexString (Some d) (replicate (unat AT_WRITE_MAX_DATA_LEN) 0)
                  AT_WRITE_MAX_DATA_LEN)) = bs)
   \<and> (odd (length d) \<or> \<not> list_all is_hex_char d \<longrightarrow>
        fst (ParseHexString (Some d) (replicate (unat AT_WRITE_MAX_DATA_LEN) 0)
               AT_WRITE_MAX_DATA_LEN) = - 1)
   \<and> (BLE_DeviceManager_GetDevice env (unat idx) = Some dev \<and> is_connected dev \<and> d \<noteq> [] \<longrightarrow>
        (even (length d) \<and> list_all is_hex_char d \<longrightarrow>
           ext_calls (snd (AT_WRITE_Handler env idx handle (Some d) w))
             = ext_calls w @ [GATT_Write (conn_handle dev) handle
                 (take (length d div 2)
                    (snd (ParseHexString (Some d) (replicate (unat AT_WRITE_MAX_DATA_LEN) 0)
                            AT_WRITE_MAX_DATA_LEN)))])
      \<and> (odd (length d) \<or> \<not> list_all is_hex_char d \<longrightarrow>
           snd (AT_WRITE_Handler env idx handle (Some d) w)
             = AT_Response_Send (''+ERROR:INVALID_HEX'' @ CRLF) w))"
proof -
  let ?buf = "replicate (unat AT_WRITE_MAX_DATA_LEN) (0 :: uint8_t)"
  let ?P = "\<lambda>t. ParseHexString (Some t) ?buf AT_WRITE_MAX_DATA_LEN"
  have len: "length d \<le> 116" by (rule write_payload_length [OF cmd payload])
  then have fit: "length d div 2 \<le> unat AT_WRITE_MAX_DATA_LEN"
    by (simp add: AT_WRITE_MAX_DATA_LEN_def)
  have pos: "0 < AT_WRITE_MAX_DATA_LEN" "unat AT_WRITE_MAX_DATA_LEN \<le> length ?buf"
    by (simp_all add: AT_WRITE_MAX_DATA_LEN_def)
  have ok: "fst (?P d) = int (length d div 2) \<and> take (length d div 2) (snd (?P d)) = hex_pairs d"
    if "even (length d)" "list_all is_hex_char d"
    using ParseHexString_decode [of d AT_WRITE_MAX_DATA_LEN ?buf, THEN conjunct1] that fit pos
    by blast
  have bad: "fst (?P d) = - 1" if "odd (length d) \<or> \<not> list_all is_hex_char d"
    using ParseHexString_decode [of d AT_WRITE_MAX_DATA_LEN ?buf, THEN conjunct2, THEN conjunct1]
      that by blast
  have disp: "AT_Command_Process env (Some line) w =
       (if ParseUInt8 (Some rest) \<noteq> 0xFF \<and> ParseUInt16 (SkipToComma (Some rest)) > 0 \<and> d \<noteq> []
        then snd (AT_WRITE_Handler env (ParseUInt8 (Some rest))
                    (ParseUInt16 (SkipToComma (Some rest))) (Some d) w)
        else send_ERROR w)"
  proof -
    from cmd have "rtrim (take (AT_CMD_MAX_LEN - 1) line)
        = CHR ''A'' # CHR ''T'' # (''+WRITE='' @ rest)" by simp
    from Process_dispatch [OF this]
    have "AT_Command_Process env (Some line) w = AT_dispatch env (''AT+WRITE='' @ rest) w"
      by simp
    with dispatch_WRITE [OF payload] show ?thesis by simp
  qed
  have A: "even (length d) \<and> list_all is_hex_char d \<longrightarrow>
        fst (?P d) = int (length d div 2)
      \<and> hex_encode (take (length d div 2) (snd (?P d))) = map hex_upper d"
    using ok by (auto simp: hex_encode_pairs)
  have B: "d = hex_encode bs \<or> d = hex_encode_lower bs \<longrightarrow>
        fst (?P d) = int (length bs) \<and> take (length bs) (snd (?P d)) = bs"
  proof
    assume enc: "d = hex_encode bs \<or> d = hex_encode_lower bs"
    then have sh: "even (length d) \<and> length d div 2 = length bs \<and> list_all is_hex_char d"
      and hp: "hex_pairs d = bs"
      using hex_encode_shape [of bs] hex_encode_lower_shape [of bs]
      by (auto simp: hex_pairs_encode hex_pairs_encode_lower)
    from ok sh hp show "fst (?P d) = int (length bs) \<and> take (length bs) (snd (?P d)) = bs"
      by auto
  qed
  have C: "odd (length d) \<or> \<not> list_all is_hex_char d \<longrightarrow> fst (?P d) = - 1"
    using bad by blast
  have E: "BLE_DeviceManager_GetDevice env (unat idx) = Some dev \<and> is_connected dev \<and> d \<noteq> [] \<longrightarrow>
        (even (length d) \<and> list_all is_hex_char d \<longrightarrow>
           ext_calls (snd (AT_WRITE_Handler env idx handle (Some d) w))
             = ext_calls w @ [GATT_Write (conn_handle dev) handle (take (length d div 2) (snd (?P d)))])
      \<and> (odd (length d) \<or> \<not> list_all is_hex_char d \<longrightarrow>
           snd (AT_WRITE_Handler env idx handle (Some d) w)
             = AT_Response_Send (''+ERROR:INVALID_HEX'' @ CRLF) w)"
    using WRITE_Handler_hex [of env idx dev d handle w, OF _ _ _ _ _ len]
      WRITE_Handler_bad_hex [of env idx dev d handle w] ok
    by auto
  from fit disp A B C E show ?thesis by blast
qed

theorem C7_hex_decode_witness:
  "rtrim (take (AT_CMD_MAX_LEN - 1) (''AT+WRITE=0,18,0A1b'' @ CRLF)) = ''AT+WRITE='' @ ''0,18,0A1b''
   \<and> SkipToComma (SkipToComma (Some ''0,18,0A1b'')) = Some ''0A1b''
   \<and> even (length ''0A1b'') \<and> list_all is_hex_char ''0A1b''
   \<and> fst (ParseHexString (Some ''0A1b'') (replicate (unat AT_WRITE_MAX_DATA_LEN) 0)
            AT_WRITE_MAX_DATA_LEN) = 2
   \<and> hex_encode (take 2 (snd (ParseHexString (Some ''0A1b'')
        (replicate (unat AT_WRITE_MAX_DATA_LEN) 0) AT_WRITE_MAX_DATA_LEN))) = ''0A1B''
   \<and> uart_tx (AT_Command_Process (env_two 0) (Some (''AT+WRITE=0,18,0A1b'' @ CRLF)) mode_reset)
       = [''OK'' @ CRLF]
   \<and> ext_calls (AT_Command_Process (env_two 0) (Some (''AT+WRITE=0,18,0A1b'' @ CRLF)) mode_reset)
       = [GATT_Write 0x0801 18 [0x0A, 0x1B]]
   \<and> rtrim (take (AT_CMD_MAX_LEN - 1) (''AT+WRITE=0,18,0a1b'' @ CRLF)) = ''AT+WRITE='' @ ''0,18,0a1b''
   \<and> hex_encode_lower [0x0A, 0x1B] = ''0a1b''
   \<and> take 2 (snd (ParseHexString (Some ''0a1b'') (replicate (unat AT_WRITE_MAX_DATA_LEN) 0)
        AT_WRITE_MAX_DATA_LEN)) = [0x0A, 0x1B]
   \<and> rtrim (take (AT_CMD_MAX_LEN - 1) (''AT+WRITE=0,18,0A1'' @ CRLF)) = ''AT+WRITE='' @ ''0,18,0A1''
   \<and> odd (length ''0A1'')
   \<and> fst (ParseHexString (Some ''0A1'') (replicate (unat AT_WRITE_MAX_DATA_LEN) 0)
            AT_WRITE_MAX_DATA_LEN) = - 1
   \<and> AT_Command_Process (env_two 0) (Some (''AT+WRITE=0,18,0A1'' @ CRLF)) mode_reset
       = mode_reset\<lparr>uart_tx := [''+ERROR:INVALID_HEX'' @ CRLF]\<rparr>
   \<and> rtrim (take (AT_CMD_MAX_LEN - 1) (''AT+WRITE=0,18,0G'' @ CRLF)) = ''AT+WRITE='' @ ''0,18,0G''
   \<and> \<not> list_all is_hex_char ''0G''
   \<and> fst (ParseHexString (Some ''0G'') (replicate (unat AT_WRITE_MAX_DATA_LEN) 0)
            AT_WRITE_MAX_DATA_LEN) = - 1"
proof -
  have r1: "rtrim (take (AT_CMD_MAX_LEN - 1) (''AT+WRITE=0,18,0A1b'' @ CRLF)) = ''AT+WRITE='' @ ''0,18,0A1b''"
    using rtrim_take_CRLF [of "''AT+WRITE=0,18,0A1b''"] by (simp add: is_trailing_ws_def)
  have r2: "rtrim (take (AT_CMD_MAX_LEN - 1) (''AT+WRITE=0,18,0a1b'' @ CRLF)) = ''AT+WRITE='' @ ''0,18,0a1b''"
    using rtrim_take_CRLF [of "''AT+WRITE=0,18,0a1b''"] by (simp add: is_trailing_ws_def)
  have r3: "rtrim (take (AT_CMD_MAX_LEN - 1) (''AT+WRITE=0,18,0A1'' @ CRLF)) = ''AT+WRITE='' @ ''0,18,0A1''"
    using rtrim_take_CRLF [of "''AT+WRITE=0,18,0A1''"] by (simp add: is_trailing_ws_def)
  have r4: "rtrim (take (AT_CMD_MAX_LEN - 1) (''AT+WRITE=0,18,0G'' @ CRLF)) = ''AT+WRITE='' @ ''0,18,0G''"
    using rtrim_take_CRLF [of "''AT+WRITE=0,18,0G''"] by (simp add: is_trailing_ws_def)
  have s1: "SkipToComma (SkipToComma (Some ''0,18,0A1b'')) = Some ''0A1b''"
    by (simp add: SkipToComma_def)
  have s2: "SkipToComma (SkipToComma (Some ''0,18,0a1b'')) = Some ''0a1b''"
    by (simp add: SkipToComma_def)
  have s3: "SkipToComma (SkipToComma (Some ''0,18,0A1'')) = Some ''0A1''"
    by (simp add: SkipToComma_def)
  have s4: "SkipToComma (SkipToComma (Some ''0,18,0G'')) = Some ''0G''"
    by (simp add: SkipToComma_def)
  note a = C7_hex_decode [OF r1 s1, of "env_two 0" mode_reset "[0x0A, 0x1B]" 0 dev_A 18]
  note b = C7_hex_decode [OF r2 s2, of "env_two 0" mode_reset "[0x0A, 0x1B]" 0 dev_A 18]
  note c = C7_hex_decode [OF r3 s3, of "env_two 0" mode_reset "[]" 0 dev_A 18]
  note d = C7_hex_decode [OF r4 s4, of "env_two 0" mode_reset "[]" 0 dev_A 18]
  have e: "even (length ''0A1b'')" by simp
  have h: "list_all is_hex_char ''0A1b''" by (simp add: is_hex_char_def char_code_def)
  have eh: "even (length ''0A1b'') \<and> list_all is_hex_char ''0A1b''" using e h by simp
  have l: "length ''0A1b'' div 2 = 2" "length [0x0A, 0x1B :: uint8_t] = 2" by simp_all
  have up: "map hex_upper ''0A1b'' = ''0A1B''" by (simp add: hex_upper_def)
  note a3 = a [THEN conjunct2, THEN conjunct2, THEN conjunct1, THEN mp, OF eh, unfolded l up]
  have idx: "ParseUInt8 (Some ''0,18,0A1b'') = 0" "ParseUInt8 (Some ''0,18,0A1'') = 0"
    by (simp_all add: ParseUInt8_def is_digit_def char_code_def)
  have hd: "ParseUInt16 (SkipToComma (Some ''0,18,0A1b'')) = 18"
    "ParseUInt16 (SkipToComma (Some ''0,18,0A1'')) = 18"
    by (simp_all add: SkipToComma_def ParseUInt16_def is_digit_def char_code_def)
  have dv: "BLE_DeviceManager_GetDevice (env_two 0) (unat (0 :: uint8_t)) = Some dev_A \<and> is_connected dev_A
      \<and> ''0A1b'' \<noteq> []" "BLE_DeviceManager_GetDevice (env_two 0) (unat (0 :: uint8_t)) = Some dev_A \<and> is_connected dev_A
      \<and> ''0A1'' \<noteq> []"
    by (simp_all add: env_two_def dev_A_def)
  have ch: "conn_handle dev_A = 0x0801" by (simp add: dev_A_def)
  note a2 = a [THEN conjunct2, THEN conjunct1, unfolded idx hd]
  note a6 = a [THEN conjunct2, THEN conjunct2, THEN conjunct2, THEN conjunct2, THEN conjunct2,
      THEN mp, OF dv(1), THEN conjunct1, THEN mp, OF eh, unfolded l ch]
  have tx: "uart_tx (AT_Command_Process (env_two 0) (Some (''AT+WRITE=0,18,0A1b'' @ CRLF)) mode_reset)
       = [''OK'' @ CRLF]" by code_simp
  have pb: "take 2 (snd (ParseHexString (Some ''0A1b'')
        (replicate (unat AT_WRITE_MAX_DATA_LEN) 0) AT_WRITE_MAX_DATA_LEN)) = [0x0A, 0x1B]"
    by code_simp
  have ex: "ext_calls (AT_Command_Process (env_two 0) (Some (''AT+WRITE=0,18,0A1b'' @ CRLF)) mode_reset)
       = [GATT_Write 0x0801 18 [0x0A, 0x1B]]"
    using a2 a6 pb by (simp add: mode_reset_def)
  have enc: "hex_encode_lower [0x0A, 0x1B] = ''0a1b''" by code_simp
  have enc': "''0a1b'' = hex_encode [0x0A, 0x1B] \<or> ''0a1b'' = hex_encode_lower [0x0A, 0x1B]"
    using enc [symmetric] by (rule disjI2)
  note b4 = b [THEN conjunct2, THEN conjunct2, THEN conjunct2, THEN conjunct1, THEN mp, OF enc',
      THEN conjunct2, unfolded l]
  have o: "odd (length ''0A1'')" by simp
  have o': "odd (length ''0A1'') \<or> \<not> list_all is_hex_char ''0A1''" using o by (rule disjI1)
  note c5 = c [THEN conjunct2, THEN conjunct2, THEN conjunct2, THEN conjunct2, THEN conjunct1,
      THEN mp, OF o']
  note c2 = c [THEN conjunct2, THEN conjunct1, unfolded idx hd]
  note c6 = c [THEN conjunct2, THEN conjunct2, THEN conjunct2, THEN conjunct2, THEN conjunct2,
      THEN mp, OF dv(2), THEN conjunct2, THEN mp, OF o']
  have cp: "AT_Command_Process (env_two 0) (Some (''AT+WRITE=0,18,0A1'' @ CRLF)) mode_reset
       = mode_reset\<lparr>uart_tx := [''+ERROR:INVALID_HEX'' @ CRLF]\<rparr>"
    using c2 c6 by (simp add: AT_Response_Send_def AT_CMD_MAX_LEN_def CRLF_def mode_reset_def)
  have g: "\<not> list_all is_hex_char ''0G''" by (simp add: is_hex_char_def char_code_def)
  have g': "odd (length ''0G'') \<or> \<not> list_all is_hex_char ''0G''" using g by (rule disjI2)
  note d5 = d [THEN conjunct2, THEN conjunct2, THEN conjunct2, THEN conjunct2, THEN conjunct1,
      THEN mp, OF g']
  show ?thesis
    using r1 s1 e h a3 tx ex r2 enc b4 r3 o c5 cp r4 g d5
    by (simp only: simp_thms of_nat_numeral)
qed


section \<open>MAC strings\<close>

lemma mac_nibble_eq:
  "mac_nibble c = (if is_hex_char c then Some (of_nat (hex_val c)) else None)"
  by (auto simp: mac_nibble_def is_hex_char_def hex_val_def char_code_def)

lemma mac_byte:
  assumes "is_hex_char c0" "is_hex_char c1"
  shows "push_bit 4 (of_nat (hex_val c0)) OR of_nat (hex_val c1)
           = (of_nat (16 * hex_val c0 + hex_val c1) :: uint8_t)"
  using assms by (intro nibbles_byte) (simp_all add: hex_val_less)

text \<open>One iteration of the loop, in terms of \<open>mac_group_ok\<close>.\<close>

lemma ParseMACString_loop_Suc:
  "ParseMACString_loop (Suc n) i s out =
     (if \<not> (is_hex_char (c_at s (i * 3)) \<and> is_hex_char (c_at s (i * 3 + 1))) then (- 1, out)
      else if i < 5 \<and> c_at s (i * 3 + 2) \<noteq> CHR '':'' then (- 1, out[i := mac_octet s i])
      else ParseMACString_loop n (Suc i) s (out[i := mac_octet s i]))"
  by (simp add: mac_nibble_eq mac_byte mac_octet_def Let_def mult.commute
      del: of_nat_add of_nat_mult)

declare ParseMACString_loop.simps(2) [simp del]

lemma ParseMACString_loop_accepts:
  "i + n = 6 \<Longrightarrow>
     (fst (ParseMACString_loop n i s out) = 0 \<longleftrightarrow> (\<forall>j. i \<le> j \<and> j < 6 \<longrightarrow> mac_group_ok s j))
     \<and> (fst (ParseMACString_loop n i s out) = 0 \<or> fst (ParseMACString_loop n i s out) = - 1)"
proof (induction n arbitrary: i out)
  case 0
  then show ?case by auto
next
  case (Suc n)
  then have i: "i < 6" and n: "Suc i + n = 6" by simp_all
  have split: "(\<forall>j. i \<le> j \<and> j < 6 \<longrightarrow> mac_group_ok s j)
                 \<longleftrightarrow> mac_group_ok s i \<and> (\<forall>j. Suc i \<le> j \<and> j < 6 \<longrightarrow> mac_group_ok s j)"
    (is "?L \<longleftrightarrow> ?R")
  proof
    assume ?L
    then show ?R using i by (auto dest: Suc_leD)
  next
    assume r: ?R
    show ?L
    proof (intro allI impI)
      fix j
      assume "i \<le> j \<and> j < 6"
      then show "mac_group_ok s j" using r by (cases "j = i") auto
    qed
  qed
  show ?case
    unfolding split ParseMACString_loop_Suc
    using Suc.IH [OF n, of "out[i := mac_octet s i]"]
    by (auto simp: mac_group_ok_def mult.commute)
qed

lemma ParseMACString_loop_octets:
  "i + n = 6 \<Longrightarrow> length out = 6 \<Longrightarrow> fst (ParseMACString_loop n i s out) = 0 \<Longrightarrow>
     snd (ParseMACString_loop n i s out) = take i out @ map (mac_octet s) [i..<6]"
proof (induction n arbitrary: i out)
  case 0
  then show ?case by simp
next
  case (Suc n)
  then have i: "i < 6" and n: "Suc i + n = 6" by simp_all
  let ?out = "out[i := mac_octet s i]"
  from Suc.prems(3) have rec: "ParseMACString_loop (Suc n) i s out = ParseMACString_loop n (Suc i) s ?out"
    by (auto simp: ParseMACString_loop_Suc split: if_splits)
  with Suc.prems(3) have ok: "fst (ParseMACString_loop n (Suc i) s ?out) = 0" by simp
  have "snd (ParseMACString_loop n (Suc i) s ?out) = take (Suc i) ?out @ map (mac_octet s) [Suc i..<6]"
    using Suc.IH [OF n _ ok] Suc.prems(2) by simp
  moreover have "take (Suc i) ?out = take i out @ [mac_octet s i]"
    using i Suc.prems(2) by (simp add: take_Suc_conv_app_nth)
  moreover have "[i..<6] = i # [Suc i..<6]" using i by (simp add: upt_conv_Cons)
  ultimately show ?case using rec by simp
qed

lemma ParseMACString_loop_deviation:
  "i + n = 6 \<Longrightarrow> length out = 6 \<Longrightarrow> i \<le> j \<Longrightarrow> j < 6 \<Longrightarrow> \<not> mac_group_ok s j \<Longrightarrow>
   (\<forall>k. i \<le> k \<and> k < j \<longrightarrow> mac_group_ok s k) \<Longrightarrow>
     fst (ParseMACString_loop n i s out) = - 1
     \<and> take j (snd (ParseMACString_loop n i s out)) = take i out @ map (mac_octet s) [i..<j]
     \<and> drop (Suc j) (snd (ParseMACString_loop n i s out)) = drop (Suc j) out"
proof (induction n arbitrary: i out)
  case 0
  then show ?case by simp
next
  case (Suc n)
  then have i: "i < 6" and n: "Suc i + n = 6" by simp_all
  let ?out = "out[i := mac_octet s i]"
  show ?case
  proof (cases "i = j")
    case True
    with Suc.prems show ?thesis
      by (auto simp: ParseMACString_loop_Suc mac_group_ok_def mult.commute)
  next
    case False
    with Suc.prems have lt: "Suc i \<le> j" and gi: "mac_group_ok s i"
      and rest: "\<forall>k. Suc i \<le> k \<and> k < j \<longrightarrow> mac_group_ok s k" by auto
    have len: "length ?out = 6" using Suc.prems(2) by simp
    from gi lt Suc.prems(4)
    have rec: "ParseMACString_loop (Suc n) i s out = ParseMACString_loop n (Suc i) s ?out"
      by (auto simp: ParseMACString_loop_Suc mac_group_ok_def mult.commute)
    note IH = Suc.IH [OF n len lt Suc.prems(4,5) rest]
    have t: "take (Suc i) ?out = take i out @ [mac_octet s i]"
      using i Suc.prems(2) by (simp add: take_Suc_conv_app_nth)
    have u: "[i..<j] = i # [Suc i..<j]" using lt by (simp add: upt_conv_Cons)
    have d: "drop (Suc j) ?out = drop (Suc j) out" using lt by simp
    show ?thesis using IH t u d rec by simp
  qed
qed

lemma not_hex_NUL: "\<not> is_hex_char (CHR 0x00)"
  by (simp add: is_hex_char_def char_code_def)

lemma groups_imp_length:
  assumes "\<forall>j<6. mac_group_ok s j"
  shows "17 \<le> length s"
proof (rule ccontr)
  assume "\<not> 17 \<le> length s"
  then have "c_at s 16 = CHR 0x00" by (simp add: c_at_def)
  moreover from assms have "mac_group_ok s 5" by simp
  ultimately show False using not_hex_NUL by (simp add: mac_group_ok_def)
qed

lemma mac_group_ok_take:
  assumes "17 \<le> length s" "j < 6"
  shows "mac_group_ok (take 17 s) j \<longleftrightarrow> mac_group_ok s j"
  using assms by (simp add: mac_group_ok_def c_at_def)

lemma accepts_iff_is_mac17:
  "(\<forall>j<6. mac_group_ok s j) \<longleftrightarrow> is_mac17 (take 17 s)"
proof
  assume a: "\<forall>j<6. mac_group_ok s j"
  then have l: "17 \<le> length s" by (rule groups_imp_length)
  with a show "is_mac17 (take 17 s)" by (simp add: is_mac17_def mac_group_ok_take)
next
  assume m: "is_mac17 (take 17 s)"
  then have l: "17 \<le> length s" by (simp add: is_mac17_def min_def split: if_splits)
  with m show "\<forall>j<6. mac_group_ok s j" by (simp add: is_mac17_def mac_group_ok_take)
qed

text \<open>
  Claim C6 (amended): \<open>ParseMACString\<close> returns 0 exactly when the first 17 characters of
  the string are six groups of two hex digits with a colon after each of the first five,
  whatever follows them; it then stores the six octets in the order of the string.
  Otherwise it returns \<open>-1\<close>, and it stops at the first group that deviates: the octets
  of the groups before it are stored and no byte after it is written.
\<close>

theorem C6_mac_prefix:
  "(fst (ParseMACString (Some s) out) = 0 \<longleftrightarrow> is_mac17 (take 17 s))
   \<and> (fst (ParseMACString (Some s) out) \<noteq> 0 \<longrightarrow> fst (ParseMACString (Some s) out) = - 1)
   \<and> (is_mac17 s \<longrightarrow> fst (ParseMACString (Some (s @ t)) out) = 0)
   \<and> (is_mac17 (take 17 s) \<and> length out = 6 \<longrightarrow>
        snd (ParseMACString (Some s) out) = mac_octets s)
   \<and> (j < 6 \<and> \<not> mac_group_ok s j \<and> (\<forall>k<j. mac_group_ok s k) \<and> length out = 6 \<longrightarrow>
        fst (ParseMACString (Some s) out) = - 1
      \<and> take j (snd (ParseMACString (Some s) out)) = map (mac_octet s) [0..<j]
      \<and> drop (Suc j) (snd (ParseMACString (Some s) out)) = drop (Suc j) out)"
proof -
  have acc: "fst (ParseMACString (Some u) out) = 0 \<longleftrightarrow> is_mac17 (take 17 u)" for u
    using ParseMACString_loop_accepts [of 0 6 u out]
    by (simp add: ParseMACString_def accepts_iff_is_mac17 [symmetric])
  have two: "fst (ParseMACString (Some s) out) \<noteq> 0 \<longrightarrow> fst (ParseMACString (Some s) out) = - 1"
    using ParseMACString_loop_accepts [of 0 6 s out] by (auto simp: ParseMACString_def)
  have trail: "is_mac17 s \<longrightarrow> fst (ParseMACString (Some (s @ t)) out) = 0"
    by (simp add: acc is_mac17_def)
  have oct: "is_mac17 (take 17 s) \<and> length out = 6 \<longrightarrow>
        snd (ParseMACString (Some s) out) = mac_octets s"
    using ParseMACString_loop_octets [of 0 6 out s] acc [of s]
    by (simp add: ParseMACString_def mac_octets_def)
  have dev: "j < 6 \<and> \<not> mac_group_ok s j \<and> (\<forall>k<j. mac_group_ok s k) \<and> length out = 6 \<longrightarrow>
        fst (ParseMACString (Some s) out) = - 1
      \<and> take j (snd (ParseMACString (Some s) out)) = map (mac_octet s) [0..<j]
      \<and> drop (Suc j) (snd (ParseMACString (Some s) out)) = drop (Suc j) out"
    using ParseMACString_loop_deviation [of 0 6 out j s]
    by (simp add: ParseMACString_def)
  from acc [of s] two trail oct dev show ?thesis by blast
qed


text \<open>
  The claim as written fails on trailing characters: a well-formed MAC followed by
  \<open>:00\<close> has 20 characters and is accepted, with the octets of its first 17.
\<close>

theorem C6_mac_prefix_counterexample:
  "fst (ParseMACString (Some ''AA:BB:CC:DD:EE:FF:00'') (replicate 6 0)) = 0
   \<and> snd (ParseMACString (Some ''AA:BB:CC:DD:EE:FF:00'') (replicate 6 0))
       = [0xAA, 0xBB, 0xCC, 0xDD, 0xEE, 0xFF]
   \<and> length ''AA:BB:CC:DD:EE:FF:00'' = 20
   \<and> \<not> is_mac17 ''AA:BB:CC:DD:EE:FF:00''"
proof -
  have "\<not> is_mac17 ''AA:BB:CC:DD:EE:FF:00''" by (simp add: is_mac17_def)
  moreover have "fst (ParseMACString (Some ''AA:BB:CC:DD:EE:FF:00'') (replicate 6 0)) = 0
   \<and> snd (ParseMACString (Some ''AA:BB:CC:DD:EE:FF:00'') (replicate 6 0))
       = [0xAA, 0xBB, 0xCC, 0xDD, 0xEE, 0xFF]"
    by code_simp
  ultimately show ?thesis by simp
qed


lemma mac_example_groups:
  "fst (ParseMACString (Some ''11:22:33:44:55:66xyz'') (replicate 6 0)) = 0"
  "mac_octets ''11:22:33:44:55:66xyz'' = [0x11, 0x22, 0x33, 0x44, 0x55, 0x66]"
  "mac_group_ok ''11:22-33:44:55:66'' 0"
  "\<not> mac_group_ok ''11:22-33:44:55:66'' 1"
  "mac_octet ''11:22-33:44:55:66'' 0 = 0x11"
  by code_simp+


theorem C6_mac_prefix_witness:
  "is_mac17 (take 17 ''11:22:33:44:55:66xyz'')
   \<and> snd (ParseMACString (Some ''11:22:33:44:55:66xyz'') (replicate 6 0))
       = [0x11, 0x22, 0x33, 0x44, 0x55, 0x66]
   \<and> \<not> mac_group_ok ''11:22-33:44:55:66'' 1
   \<and> mac_group_ok ''11:22-33:44:55:66'' 0
   \<and> fst (ParseMACString (Some ''11:22-33:44:55:66'') (replicate 6 0)) = - 1
   \<and> take 1 (snd (ParseMACString (Some ''11:22-33:44:55:66'') (replicate 6 0))) = [0x11]
   \<and> drop 2 (snd (ParseMACString (Some ''11:22-33:44:55:66'') (replicate 6 0))) = [0, 0, 0, 0]"
proof -
  note a = C6_mac_prefix [of "''11:22:33:44:55:66xyz''" "replicate 6 0" "[]" 0]
  note b = C6_mac_prefix [of "''11:22-33:44:55:66''" "replicate 6 0" "[]" 1]
  have m: "is_mac17 (take 17 ''11:22:33:44:55:66xyz'')"
    by (rule a [THEN conjunct1, THEN iffD1]) (rule mac_example_groups(1))
  have o: "snd (ParseMACString (Some ''11:22:33:44:55:66xyz'') (replicate 6 0))
             = mac_octets ''11:22:33:44:55:66xyz''"
    by (rule a [THEN conjunct2, THEN conjunct2, THEN conjunct2, THEN conjunct1, THEN mp])
       (simp only: m length_replicate simp_thms)
  have pre: "1 < (6 :: nat) \<and> \<not> mac_group_ok ''11:22-33:44:55:66'' 1
             \<and> (\<forall>k<1. mac_group_ok ''11:22-33:44:55:66'' k) \<and> length (replicate 6 (0 :: uint8_t)) = 6"
    using mac_example_groups(3,4) by simp
  note d = b [THEN conjunct2, THEN conjunct2, THEN conjunct2, THEN conjunct2, THEN mp, OF pre]
  have r: "drop (Suc 1) (replicate 6 (0 :: uint8_t)) = [0, 0, 0, 0]"
    by (simp add: numeral_eq_Suc)
  have u: "map (mac_octet ''11:22-33:44:55:66'') [0..<1] = [0x11]"
    by (simp add: mac_example_groups(5))
  have t2: "drop 2 (snd (ParseMACString (Some ''11:22-33:44:55:66'') (replicate 6 0)))
              = [0, 0, 0, 0]"
    using d [THEN conjunct2, THEN conjunct2] r by (simp only: Suc_1)
  show ?thesis
    using m o mac_example_groups(2,3,4) d [THEN conjunct1] d [THEN conjunct2, THEN conjunct1] u t2
    by (simp only: simp_thms)
qed

end
